theory Spec2Isabelle
  imports Main "HOL-Library.AList" "HOL-Library.Sublist"
begin

section \<open>JavaScript values\<close>

text \<open>
  The values that travel through the dispatch layer: handler results, rejection values,
  parameter objects and response bodies. They are data: no property holds a function.
  An object is its list of own properties in insertion order (keys unique). \<open>JObj\<close> is
  an ordinary object, which inherits the members of \<open>Object.prototype\<close>; \<open>JBare\<close> is an
  object without a prototype, such as the one \<open>querystring.parse\<close> returns.
  \<open>JTypeError\<close> and \<open>JRangeError\<close> are the error instances the engine and the HTTP
  library throw, carrying their \<open>message\<close>.
\<close>

datatype jsval =
    JUndefined
  | JNull
  | JBool bool
  | JNum int
  | JStr string
  | JArr "jsval list"
  | JObj "(string \<times> jsval) list"
  | JBare "(string \<times> jsval) list"
  | JTypeError string
  | JRangeError string

type_synonym jsobj = "(string \<times> jsval) list"

text \<open>
  A call either throws (the thrown value is kept) or returns.
\<close>

datatype 'a completion = Threw jsval | Returned 'a

text \<open>JavaScript's ToBoolean, as used by \<open>x ? a : b\<close>, \<open>x || d\<close> and \<open>!x\<close>.\<close>

fun truthy :: "jsval \<Rightarrow> bool" where
  "truthy JUndefined = False"
| "truthy JNull = False"
| "truthy (JBool b) = b"
| "truthy (JNum n) = (n \<noteq> 0)"
| "truthy (JStr s) = (s \<noteq> [])"
| "truthy (JArr xs) = True"
| "truthy (JObj kvs) = True"
| "truthy (JBare kvs) = True"
| "truthy (JTypeError m) = True"
| "truthy (JRangeError m) = True"

text \<open>Reading any property of \<open>null\<close> or \<open>undefined\<close> throws a TypeError.\<close>

fun nullish :: "jsval \<Rightarrow> bool" where
  "nullish JUndefined = True"
| "nullish JNull = True"
| "nullish v = False"

text \<open>
  The own-key test and the property read \<open>v.k\<close> for a value that is not nullish, at the
  property names this program reads (\<open>data\<close>, \<open>_raw\<close>, \<open>_redirect\<close>, \<open>status\<close>,
  \<open>message\<close>; none of them is a member of a prototype): a primitive or an array has
  none of them, an error instance has its \<open>message\<close>.
\<close>

fun has_own :: "jsval \<Rightarrow> string \<Rightarrow> bool" where
  "has_own (JObj kvs) k = (k \<in> set (map fst kvs))"
| "has_own (JBare kvs) k = (k \<in> set (map fst kvs))"
| "has_own (JTypeError m) k = (k = ''message'')"
| "has_own (JRangeError m) k = (k = ''message'')"
| "has_own v k = False"

fun get_prop :: "jsval \<Rightarrow> string \<Rightarrow> jsval" where
  "get_prop (JObj kvs) k = (case map_of kvs k of Some v \<Rightarrow> v | None \<Rightarrow> JUndefined)"
| "get_prop (JBare kvs) k = (case map_of kvs k of Some v \<Rightarrow> v | None \<Rightarrow> JUndefined)"
| "get_prop (JTypeError m) k = (if k = ''message'' then JStr m else JUndefined)"
| "get_prop (JRangeError m) k = (if k = ''message'' then JStr m else JUndefined)"
| "get_prop v k = JUndefined"

definition property_of_nullish :: jsval where
  "property_of_nullish = JTypeError ''Cannot read properties of null or undefined''"

definition not_a_constructor :: jsval where
  "not_a_constructor = JTypeError ''endpoint is not a constructor''"

definition not_a_function :: jsval where
  "not_a_function = JTypeError ''method is not a function''"

definition invalid_status_code :: jsval where
  "invalid_status_code = JRangeError ''Invalid status code''"

definition no_primitive_value :: jsval where
  "no_primitive_value = JTypeError ''Cannot convert object to primitive value''"

text \<open>
  The method call \<open>v.hasOwnProperty(k)\<close>. The method is looked up on the value first:
  that faults on a nullish value; an ordinary object, a primitive, an array and an error
  instance find the method of \<open>Object.prototype\<close>, unless an own property of that name
  shadows it, and then what is called is data, which is a TypeError; an object without a
  prototype finds an own property of that name or nothing, a TypeError both times.
\<close>

fun can_call_hasOwnProperty :: "jsval \<Rightarrow> bool" where
  "can_call_hasOwnProperty JUndefined = False"
| "can_call_hasOwnProperty JNull = False"
| "can_call_hasOwnProperty (JObj kvs) = (''hasOwnProperty'' \<notin> set (map fst kvs))"
| "can_call_hasOwnProperty (JBare kvs) = False"
| "can_call_hasOwnProperty v = True"

definition hasOwnProperty :: "jsval \<Rightarrow> string \<Rightarrow> bool completion" where
  "hasOwnProperty v k =
     (if nullish v then Threw property_of_nullish
      else if can_call_hasOwnProperty v then Returned (has_own v k)
      else Threw not_a_function)"

section \<open>Lookups on the registry and cache objects\<close>

text \<open>
  The endpoint registry and the two instance caches are ordinary objects read with
  \<open>obj[key]\<close>. Such a read finds an own property, or else a member the object inherits
  from \<open>Object.prototype\<close>, or else nothing (\<open>undefined\<close>). The inherited members are
  functions, except \<open>__proto__\<close>, which reads as the prototype object; all are truthy
  and none is a string.
\<close>

definition object_prototype_members :: "string list" where
  "object_prototype_members =
     [''constructor'', ''__defineGetter__'', ''__defineSetter__'', ''hasOwnProperty'',
      ''__lookupGetter__'', ''__lookupSetter__'', ''isPrototypeOf'',
      ''propertyIsEnumerable'', ''toString'', ''valueOf'', ''__proto__'',
      ''toLocaleString'']"

definition inherited :: "string \<Rightarrow> bool" where
  "inherited k = (k \<in> set object_prototype_members)"

datatype 'a found = Own 'a | Inherited string

definition lookup :: "(string \<Rightarrow> 'a option) \<Rightarrow> string \<Rightarrow> 'a found option" where
  "lookup own k =
     (case own k of
        Some v \<Rightarrow> Some (Own v)
      | None \<Rightarrow> if inherited k then Some (Inherited k) else None)"

section \<open>The response sink\<close>

text \<open>
  The Express response object, seen through the calls the router makes on it.
  \<open>res.status(c)\<close> stores the status code. \<open>res.json(b)\<close> sends the body \<open>b\<close> under
  the stored status: Node reads the status as a 32-bit integer (\<open>statusCode |= 0\<close>) and
  throws a RangeError, sending nothing, unless it lies between 100 and 999; reading a
  status that is or holds an object without a prototype as a number is a TypeError.
  \<open>res.redirect(u)\<close> sets status 302 and sends a redirect to \<open>u\<close>. A fresh response
  has status 200. \<open>sent\<close> lists what has been sent, oldest first, a JSON reply with
  the status it went out under and the value handed to \<open>res.json\<close>; \<open>res.end()\<close> after
  \<open>res.json\<close> sends nothing more.
\<close>

datatype reply = JsonReply jsval jsval | RedirectReply jsval

record response =
  statusCode :: jsval
  sent :: "reply list"

definition fresh_response :: response where
  "fresh_response = \<lparr>statusCode = JNum 200, sent = []\<rparr>"

text \<open>
  \<open>v | 0\<close>: a number wraps into 32 bits; \<open>true\<close> is 1; a string of decimal digits is
  its number (the other spellings of a number that JavaScript accepts in a string are
  not modelled); an array of one element reads as that element's string; everything
  else is 0.
\<close>

definition to_int32 :: "int \<Rightarrow> int" where
  "to_int32 n = (n + 2 ^ 31) mod 2 ^ 32 - 2 ^ 31"

definition is_digit :: "char \<Rightarrow> bool" where
  "is_digit c = (48 \<le> (of_char c :: nat) \<and> (of_char c :: nat) \<le> 57)"

definition decimal :: "string \<Rightarrow> int" where
  "decimal s =
     (if s \<noteq> [] \<and> list_all is_digit s
      then foldl (\<lambda>n c. 10 * n + (int (of_char c) - 48)) 0 s
      else 0)"

fun status_number :: "jsval \<Rightarrow> int" where
  "status_number (JNum n) = to_int32 n"
| "status_number (JBool b) = (if b then 1 else 0)"
| "status_number (JStr s) = to_int32 (decimal s)"
| "status_number (JArr [JNum n]) = to_int32 n"
| "status_number (JArr [JStr s]) = to_int32 (decimal s)"
| "status_number (JArr [JArr xs]) = status_number (JArr xs)"
| "status_number v = 0"

fun has_bare :: "jsval \<Rightarrow> bool" where
  "has_bare (JBare kvs) = True"
| "has_bare (JArr xs) = list_ex has_bare xs"
| "has_bare v = False"

definition sendable :: "jsval \<Rightarrow> bool" where
  "sendable c = (\<not> has_bare c \<and> 100 \<le> status_number c \<and> status_number c \<le> 999)"

text \<open>
  A call on the sink gives the response object as the call leaves it, and the exception
  if it threw; a call that threw has sent nothing.
\<close>

type_synonym sink_result = "jsval option \<times> response"

definition res_status :: "jsval \<Rightarrow> response \<Rightarrow> response" where
  "res_status c res = res\<lparr>statusCode := c\<rparr>"

definition res_json :: "jsval \<Rightarrow> response \<Rightarrow> sink_result" where
  "res_json b res =
     (if sendable (statusCode res)
      then (None, res\<lparr>sent := sent res @ [JsonReply (JNum (status_number (statusCode res))) b]\<rparr>)
      else if has_bare (statusCode res) then (Some no_primitive_value, res)
      else (Some invalid_status_code, res))"

definition res_redirect :: "jsval \<Rightarrow> response \<Rightarrow> sink_result" where
  "res_redirect u res = (None, res\<lparr>statusCode := JNum 302, sent := sent res @ [RedirectReply u]\<rparr>)"

definition res_end :: "response \<Rightarrow> response" where
  "res_end res = res"

section \<open>Server: response encoding\<close>

text \<open>
  \<^verbatim>\<open>respondWithError(res, e)\<close>: \<open>res.status(e.status).json({error: {code: e.status,
  message: e.message}}); res.end()\<close>. Reading \<open>e.status\<close> faults when \<open>e\<close> is nullish;
  \<open>res.json\<close> throws when \<open>e.status\<close> is no status code, and \<open>res.end()\<close> is then
  not reached.
\<close>

definition error_body :: "jsval \<Rightarrow> jsval \<Rightarrow> jsval" where
  "error_body code msg = JObj [(''error'', JObj [(''code'', code), (''message'', msg)])]"

definition failure :: "int \<Rightarrow> string \<Rightarrow> jsval" where
  "failure st msg = JObj [(''status'', JNum st), (''message'', JStr msg)]"

definition respondWithError :: "response \<Rightarrow> jsval \<Rightarrow> sink_result" where
  "respondWithError res e =
     (if nullish e then (Some property_of_nullish, res)
      else
        (case res_json (error_body (get_prop e ''status'') (get_prop e ''message''))
                (res_status (get_prop e ''status'') res) of
           (None, res') \<Rightarrow> (None, res_end res')
         | (Some fault, res') \<Rightarrow> (Some fault, res')))"

text \<open>
  \<^verbatim>\<open>respondWithSuccess(response, result)\<close>: the chain of \<open>result.hasOwnProperty(..)\<close>
  calls in the order of the source, \<open>_raw\<close> first. A call that throws ends the function.
\<close>

definition respondWithSuccess :: "response \<Rightarrow> jsval \<Rightarrow> sink_result" where
  "respondWithSuccess response result =
     (case hasOwnProperty result ''_raw'' of
        Threw fault \<Rightarrow> (Some fault, response)
      | Returned True \<Rightarrow> res_json (get_prop result ''_raw'') response
      | Returned False \<Rightarrow>
          (case hasOwnProperty result ''_redirect'' of
             Threw fault \<Rightarrow> (Some fault, response)
           | Returned True \<Rightarrow> res_redirect (get_prop result ''_redirect'') response
           | Returned False \<Rightarrow>
               (case hasOwnProperty result ''data'' of
                  Threw fault \<Rightarrow> (Some fault, response)
                | Returned True \<Rightarrow> res_json result response
                | Returned False \<Rightarrow> res_json (JObj [(''data'', result)]) response)))"

section \<open>Strings\<close>

text \<open>
  \<open>s.split(sep)\<close> for a one-character separator, and for the regular expression
  \<open>/\s/\<close>: the pieces between consecutive separators, empty pieces kept, so the empty
  string splits into one empty piece. \<open>xs.join(sep)\<close> is the inverse.
\<close>

fun split_when :: "(char \<Rightarrow> bool) \<Rightarrow> string \<Rightarrow> string list" where
  "split_when p [] = [[]]"
| "split_when p (c # cs) =
     (if p c then [] # split_when p cs
      else (case split_when p cs of
              [] \<Rightarrow> [[c]]
            | w # ws \<Rightarrow> (c # w) # ws))"

fun join :: "char \<Rightarrow> string list \<Rightarrow> string" where
  "join sep [] = []"
| "join sep [x] = x"
| "join sep (x # y # ys) = x @ sep # join sep (y # ys)"

text \<open>\<open>path.sep\<close> of Node's \<open>path\<close> module on a POSIX host.\<close>

definition path_sep :: char where
  "path_sep = CHR ''/''"

text \<open>
  The characters \<open>\s\<close> matches among the one-byte characters a header value is made of:
  tab, line feed, vertical tab, form feed, carriage return, space, no-break space.
\<close>

definition is_space :: "char \<Rightarrow> bool" where
  "is_space c = (c \<in> set [CHR 0x09, CHR 0x0A, CHR 0x0B, CHR 0x0C, CHR 0x0D, CHR 0x20, CHR 0xA0])"

text \<open>
  \<open>url.match(/\/api\/([^?]*)/)\<close>: the leftmost occurrence of \<open>/api/\<close>, and the group is
  everything after it up to the first \<open>?\<close>. \<open>None\<close> is the \<open>null\<close> of no match.
\<close>

fun api_match :: "string \<Rightarrow> string option" where
  "api_match [] = None"
| "api_match (c # cs) =
     (if prefix ''/api/'' (c # cs)
      then Some (takeWhile (\<lambda>x. x \<noteq> CHR ''?'') (drop 5 (c # cs)))
      else api_match cs)"

section \<open>Handlers, the registry and the two instance caches\<close>

text \<open>
  A handler method returns a promise; the model keeps how that promise ends.
  \<open>Pending\<close> is a promise that never settles.
\<close>

datatype settlement = Resolved jsval | Rejected jsval | Pending

text \<open>
  A handler type is given by the methods of its instances, looked up by name
  (\<open>endpoint[method]\<close>); a method takes the params and the request meta object. An
  endpoint descriptor is a URL string or a handler type. An instance remembers the
  order number of its construction, which is its identity. Handlers are taken without
  state of their own: what a method's promise settles with depends on its arguments.
\<close>

type_synonym handler_method = "jsval \<Rightarrow> jsval \<Rightarrow> settlement"
type_synonym handler_class = "string \<Rightarrow> handler_method option"

datatype descriptor = Remote string | Local handler_class

record handler_instance =
  ident :: nat
  methods :: handler_class

text \<open>
  One process: the Server with its options and its own \<open>endpointInstances\<close>, the Client
  with its own \<open>endpointInstances\<close>, and the number of handler instances constructed so
  far. The four maps hold the own properties of the registry objects and of the cache
  objects; what \<open>this.endpoints[k]\<close> and \<open>this.endpointInstances[k]\<close> evaluate to is
  \<open>lookup\<close> on them.
\<close>

record process =
  server_endpoints :: "string \<Rightarrow> descriptor option"
  server_instances :: "string \<Rightarrow> handler_instance option"
  includeRequestId :: bool
  headerParams :: "string list"
  client_endpoints :: "string \<Rightarrow> descriptor option"
  client_instances :: "string \<Rightarrow> handler_instance option"
  constructed :: nat

text \<open>
  The truth value of \<open>this.endpoints[k]\<close>: the empty URL string is falsy, an inherited
  member is truthy.
\<close>

fun truthy_endpoint :: "descriptor found option \<Rightarrow> bool" where
  "truthy_endpoint None = False"
| "truthy_endpoint (Some (Own (Remote url))) = (url \<noteq> [])"
| "truthy_endpoint (Some (Own (Local cls))) = True"
| "truthy_endpoint (Some (Inherited name)) = True"

text \<open>
  What a cache lookup hands out is a handler instance or an inherited member.
  \<open>methods_of e name\<close> is \<open>e[name]\<close> as a handler method. No member of
  \<open>Object.prototype\<close> has a property \<open>get\<close>, \<open>post\<close>, \<open>put\<close> or \<open>delete\<close>, the
  verbs of the router and of a call request. Under any other name, what a member has
  is no handler method either: calling it where a promise is expected ends in an
  exception as well (a TypeError, which the model keeps, but for the name
  \<open>constructor\<close>, where the engine may raise a SyntaxError instead).
\<close>

fun methods_of :: "handler_instance found \<Rightarrow> handler_class" where
  "methods_of (Own inst) = methods inst"
| "methods_of (Inherited name) = (\<lambda>method. None)"

text \<open>
  \<open>new endpoint(config)\<close>. A handler type gives a new instance, numbered by the count
  of constructions. \<open>undefined\<close>, a URL string and the inherited members are no
  constructors, except the member \<open>constructor\<close>, which is \<open>Object\<close>: \<open>new Object(config)\<close>
  is the config object itself, which has no handler method.
\<close>

fun construct :: "descriptor found option \<Rightarrow> nat \<Rightarrow> handler_instance completion" where
  "construct (Some (Own (Local cls))) n = Returned \<lparr>ident = n, methods = cls\<rparr>"
| "construct (Some (Inherited name)) n =
     (if name = ''constructor'' then Returned \<lparr>ident = n, methods = (\<lambda>method. None)\<rparr>
      else Threw not_a_constructor)"
| "construct (Some (Own (Remote url))) n = Threw not_a_constructor"
| "construct None n = Threw not_a_constructor"

section \<open>Server: parameter extraction\<close>

text \<open>
  The Express request: \<open>body\<close> and \<open>query\<close> are the own properties of the objects the
  body parser and the query parser left on it; \<open>body_bare\<close> says that \<open>req.body\<close> is
  an object without a prototype, as the URL-encoded body parser leaves it; \<open>rawBody\<close>
  is set by \<open>rawBodySaver\<close> when raw-body capture is on; \<open>header\<close> is the accessor
  \<open>req.header(name)\<close>.
\<close>

record request =
  originalUrl :: string
  baseUrl :: string
  body :: jsobj
  body_bare :: bool
  query :: jsobj
  rawBody :: "string option"
  header :: "string \<Rightarrow> string option"

text \<open>\<open>params[key] = v\<close> on an object: overwrite in place, or append a new property.\<close>

definition set_prop :: "string \<Rightarrow> jsval \<Rightarrow> jsobj \<Rightarrow> jsobj" where
  "set_prop key v params = AList.update key v params"

text \<open>\<open>req.header(name)\<close> as a value: the string, or \<open>undefined\<close>.\<close>

definition header_value :: "request \<Rightarrow> string \<Rightarrow> jsval" where
  "header_value req name = (case header req name of None \<Rightarrow> JUndefined | Some v \<Rightarrow> JStr v)"

text \<open>\<open>xs[i]\<close> on an array of strings: \<open>undefined\<close> out of range.\<close>

definition element :: "string list \<Rightarrow> nat \<Rightarrow> jsval" where
  "element xs i = (if i < length xs then JStr (xs ! i) else JUndefined)"

text \<open>
  \<^verbatim>\<open>extractParams(method, req)\<close>. \<open>params\<close> starts as \<open>req.body\<close>; the \<open>for ... in\<close>
  over \<open>req.query\<close> assigns every query property; then \<open>_body\<close>, \<open>_auth_token\<close>,
  \<open>_request_id\<close> and the configured header names are assigned, in this order.
  \<open>s.indexOf(t) == 0\<close> is \<open>prefix t s\<close>. In the source \<open>params\<close> is the very object
  \<open>req.body\<close>, which is assigned to in place: \<open>extractParams\<close> gives its properties
  after the assignments, and \<open>params_object\<close> is the object itself, with or without a
  prototype as \<open>req.body\<close> is.
\<close>

definition bearer :: "string \<Rightarrow> bool" where
  "bearer a = (truthy (JStr a) \<and> (prefix ''Bearer '' a \<or> prefix ''bearer '' a))"

definition extractParams :: "process \<Rightarrow> string \<Rightarrow> request \<Rightarrow> jsobj" where
  "extractParams self method req =
     (let params = body req;
          params = fold (\<lambda>kv p. set_prop (fst kv) (snd kv) p) (query req) params;
          params = (case rawBody req of
                      None \<Rightarrow> params
                    | Some raw \<Rightarrow>
                        if truthy (JStr raw) then set_prop ''_body'' (JStr raw) params
                        else params);
          params = (case header req ''Authorization'' of
                      None \<Rightarrow> params
                    | Some a \<Rightarrow>
                        if bearer a
                        then set_prop ''_auth_token'' (element (split_when is_space a) 1) params
                        else params);
          params = (if includeRequestId self \<and> truthy (header_value req ''X-Request-ID'')
                    then set_prop ''_request_id'' (header_value req ''X-Request-ID'') params
                    else params);
          params = fold (\<lambda>h p. set_prop h (header_value req h) p) (headerParams self) params
      in params)"

definition params_object :: "process \<Rightarrow> string \<Rightarrow> request \<Rightarrow> jsval" where
  "params_object self method req =
     (if body_bare req then JBare (extractParams self method req)
      else JObj (extractParams self method req))"

section \<open>Server: dispatch\<close>

text \<open>
  \<^verbatim>\<open>getEndpoint(path)\<close>: what the cache lookup finds, an instance or an inherited
  member, is handed out as it is; when it finds nothing, \<open>new this.endpoints[path]\<close>
  is stored in the cache. (The logger the source hangs on a new instance is left out.)
\<close>

definition getEndpoint ::
  "process \<Rightarrow> string \<Rightarrow> (handler_instance found \<times> process) completion" where
  "getEndpoint self path =
     (case lookup (server_instances self) path of
        Some endpoint \<Rightarrow> Returned (endpoint, self)
      | None \<Rightarrow>
          (case construct (lookup (server_endpoints self) path) (constructed self) of
             Threw e \<Rightarrow> Threw e
           | Returned inst \<Rightarrow>
               Returned (Own inst,
                 self\<lparr>server_instances := (server_instances self)(path \<mapsto> inst),
                      constructed := Suc (constructed self)\<rparr>)))"

definition request_meta :: "request \<Rightarrow> jsval" where
  "request_meta req =
     JObj [(''originalUrl'', JStr (originalUrl req)), (''baseUrl'', JStr (baseUrl req))]"

text \<open>
  \<^verbatim>\<open>processEndpoint(path, method, req, res)\<close>. The handler's promise is followed by
  \<open>.then(respondWithSuccess).catch(respondWithError)\<close>: a fault thrown inside the
  \<open>then\<close> callback reaches the \<open>catch\<close> callback as the rejection value. The result
  is the exception that left \<open>processEndpoint\<close> unhandled, if any (thrown, or as the
  rejection of the promise it returns), the response object and the process afterwards.
\<close>

definition processEndpoint ::
  "process \<Rightarrow> string \<Rightarrow> string \<Rightarrow> request \<Rightarrow> response
     \<Rightarrow> jsval option \<times> response \<times> process" where
  "processEndpoint self path method req res =
     (case getEndpoint self path of
        Threw e \<Rightarrow> (Some e, res, self)
      | Returned (endpoint, self') \<Rightarrow>
          (case methods_of endpoint method of
             None \<Rightarrow>
               (case respondWithError res (failure 405 ''method not available'') of
                  (fault, res') \<Rightarrow> (fault, res', self'))
           | Some m \<Rightarrow>
               (case m (params_object self' method req) (request_meta req) of
                  Resolved result \<Rightarrow>
                    (case respondWithSuccess res result of
                       (None, res') \<Rightarrow> (None, res', self')
                     | (Some fault, res') \<Rightarrow>
                         (case respondWithError res' fault of
                            (fault', res'') \<Rightarrow> (fault', res'', self')))
                | Rejected e \<Rightarrow>
                    (case respondWithError res e of
                       (fault, res') \<Rightarrow> (fault, res', self'))
                | Pending \<Rightarrow> (None, res, self'))))"

text \<open>
  \<^verbatim>\<open>processMethod(method, req, res)\<close>: the \<open>while (segments.length > 0)\<close> loop, then the
  404 after it. \<open>matches[1]\<close> faults when the URL has no \<open>/api/\<close> in it.
\<close>

function processMethod_loop ::
  "process \<Rightarrow> string \<Rightarrow> request \<Rightarrow> response \<Rightarrow> string list
     \<Rightarrow> jsval option \<times> response \<times> process" where
  "processMethod_loop self method req res segments =
     (if segments = [] then
        (case respondWithError res (failure 404 ''api endpoint not found'') of
           (fault, res') \<Rightarrow> (fault, res', self))
      else if truthy_endpoint (lookup (server_endpoints self) (join path_sep segments)) then
        processEndpoint self (join path_sep segments) method req res
      else processMethod_loop self method req res (butlast segments))"
  by pat_completeness auto
termination
  by (relation "measure (\<lambda>(self, method, req, res, segments). length segments)") auto

definition processMethod ::
  "process \<Rightarrow> string \<Rightarrow> request \<Rightarrow> response \<Rightarrow> jsval option \<times> response \<times> process" where
  "processMethod self method req res =
     (case api_match (originalUrl req) of
        None \<Rightarrow> (Some property_of_nullish, res, self)
      | Some apiUrl \<Rightarrow>
          processMethod_loop self method req res (split_when (\<lambda>c. c = path_sep) apiUrl))"

section \<open>Client\<close>

text \<open>
  The call-options object, by the keys the Client reads: \<open>endpoint\<close>, \<open>method\<close>,
  \<open>params\<close>, \<open>parser\<close> and \<open>'Content-Type'\<close>. \<open>None\<close> is a missing key.
\<close>

record callOptions =
  co_endpoint :: string
  co_method :: "string option"
  co_params :: jsval
  co_parser :: "(jsval \<Rightarrow> jsval) option"
  co_content_type :: "string option"

text \<open>The options object handed to the HTTP client library.\<close>

record clientOptions =
  headers_content_type :: string
  cl_method :: string
  cl_parameters :: "jsval option"
  cl_data :: "jsval option"

text \<open>
  The HTTP client library: the request either calls back with the parsed response body,
  or emits \<open>error\<close>. It is given the method, the URL and the client options.
\<close>

datatype transport_result = TransportSuccess jsval | TransportError jsval

type_synonym transport = "string \<Rightarrow> string \<Rightarrow> clientOptions \<Rightarrow> transport_result"

text \<open>\<open>x || d\<close> on an optional string and on an optional function.\<close>

definition or_default :: "string option \<Rightarrow> string \<Rightarrow> string" where
  "or_default x d = (case x of None \<Rightarrow> d | Some s \<Rightarrow> if truthy (JStr s) then s else d)"

definition parser_or_identity :: "(jsval \<Rightarrow> jsval) option \<Rightarrow> jsval \<Rightarrow> jsval" where
  "parser_or_identity x = (case x of None \<Rightarrow> (\<lambda>data. data) | Some f \<Rightarrow> f)"

text \<open>
  \<^verbatim>\<open>loadRequestMethod(callOptions, clientOptions, reject)\<close>: returns the client options
  and the value \<open>reject\<close> was called with, if it was.
\<close>

definition loadRequestMethod :: "callOptions \<Rightarrow> clientOptions \<Rightarrow> clientOptions \<times> jsval option" where
  "loadRequestMethod callOptions clientOptions =
     (let clientOptions = clientOptions\<lparr>cl_method := or_default (co_method callOptions) ''get''\<rparr>
      in if cl_method clientOptions = ''get'' \<or> cl_method clientOptions = ''delete'' then
           (clientOptions\<lparr>cl_parameters := Some (co_params callOptions)\<rparr>, None)
         else if cl_method clientOptions = ''put'' \<or> cl_method clientOptions = ''post'' then
           (clientOptions\<lparr>cl_data := Some (co_params callOptions)\<rparr>, None)
         else
           (clientOptions, Some (failure 405 ''method not supported'')))"

text \<open>
  \<^verbatim>\<open>loadClientOptions(callOptions, reject)\<close>: it deletes a truthy \<open>'Content-Type'\<close> from
  the caller's object and assigns its \<open>parser\<close>, so the changed call options are returned
  with the client options.
\<close>

definition loadClientOptions ::
  "callOptions \<Rightarrow> clientOptions \<times> callOptions \<times> jsval option" where
  "loadClientOptions callOptions =
     (let (contentType, callOptions) =
            (case co_content_type callOptions of
               None \<Rightarrow> (''application/json'', callOptions)
             | Some ct \<Rightarrow>
                 if truthy (JStr ct) then (ct, callOptions\<lparr>co_content_type := None\<rparr>)
                 else (''application/json'', callOptions));
          clientOptions =
            \<lparr>headers_content_type = contentType,
             cl_method = [], cl_parameters = None, cl_data = None\<rparr>;
          callOptions = callOptions\<lparr>co_parser := Some (parser_or_identity (co_parser callOptions))\<rparr>;
          (clientOptions, rejected) = loadRequestMethod callOptions clientOptions
      in (clientOptions, callOptions, rejected))"

text \<open>
  \<^verbatim>\<open>callRemote(endpoint, callOptions)\<close>. When \<open>reject\<close> was called for the method, the
  promise is rejected whatever follows in the executor. Otherwise the request is made;
  its callback reads \<open>data.data\<close> (a fault there leaves the promise unsettled) and
  resolves with the parser's result; its \<open>error\<close> event rejects with status 500.
  The URL \<open>self.endpoints[callOptions.endpoint]\<close> is the \<open>endpoint\<close> argument.
\<close>

definition callRemote :: "transport \<Rightarrow> string \<Rightarrow> callOptions \<Rightarrow> settlement \<times> callOptions" where
  "callRemote client endpoint callOptions =
     (let (clientOptions, callOptions, rejected) = loadClientOptions callOptions
      in (case rejected of
            Some e \<Rightarrow> (Rejected e, callOptions)
          | None \<Rightarrow>
              (case client (cl_method clientOptions) endpoint clientOptions of
                 TransportSuccess data \<Rightarrow>
                   (if nullish data then (Pending, callOptions)
                    else
                      (let returnToParser =
                             (if truthy (get_prop data ''data'') then get_prop data ''data'' else data)
                       in (Resolved (parser_or_identity (co_parser callOptions) returnToParser),
                           callOptions)))
               | TransportError err \<Rightarrow>
                   (Rejected (JObj [(''status'', JNum 500), (''message'', err)]), callOptions))))"

text \<open>
  \<^verbatim>\<open>callLocal(endpoint, callOptions)\<close>; \<open>endpoint\<close> is what the registry lookup gave.
  \<open>method\<close> and \<open>parser\<close> are assigned on the caller's object first (\<open>with_defaults\<close>:
  \<open>callOptions.method = callOptions.method || 'get'\<close>, and likewise the parser). When the cache
  lookup finds something, an instance or an inherited member, that is used as the
  instance; otherwise \<open>new endpoint(..)\<close> is stored in the cache, and an exception of
  \<open>new\<close> is thrown out of \<open>callLocal\<close>. \<open>callLocal_executor\<close> is the body of the
  promise executor, run on what the cache lookup gives: calling a method the instance
  does not have throws there, which rejects the promise.
\<close>

definition with_defaults :: "callOptions \<Rightarrow> callOptions" where
  "with_defaults callOptions =
     callOptions\<lparr>co_method := Some (or_default (co_method callOptions) ''get''),
                 co_parser := Some (parser_or_identity (co_parser callOptions))\<rparr>"

definition callLocal_executor :: "handler_instance found \<Rightarrow> callOptions \<Rightarrow> settlement" where
  "callLocal_executor inst callOptions =
     (case methods_of inst (or_default (co_method callOptions) ''get'') of
        None \<Rightarrow> Rejected not_a_function
      | Some m \<Rightarrow>
          (case m (co_params callOptions) JUndefined of
             Resolved result \<Rightarrow> Resolved (parser_or_identity (co_parser callOptions) result)
           | Rejected e \<Rightarrow> Rejected e
           | Pending \<Rightarrow> Pending))"

definition callLocal ::
  "process \<Rightarrow> descriptor found option \<Rightarrow> callOptions
     \<Rightarrow> settlement completion \<times> process \<times> callOptions" where
  "callLocal self endpoint callOptions =
     (let callOptions = with_defaults callOptions
      in (case lookup (client_instances self) (co_endpoint callOptions) of
            Some inst \<Rightarrow> (Returned (callLocal_executor inst callOptions), self, callOptions)
          | None \<Rightarrow>
              (case construct endpoint (constructed self) of
                 Threw e \<Rightarrow> (Threw e, self, callOptions)
               | Returned inst \<Rightarrow>
                   (let self' = self\<lparr>client_instances :=
                                       (client_instances self)(co_endpoint callOptions \<mapsto> inst),
                                     constructed := Suc (constructed self)\<rparr>
                    in (Returned (callLocal_executor (Own inst) callOptions), self',
                        callOptions)))))"

text \<open>\<^verbatim>\<open>call(callOptions)\<close>: remote when the registry lookup gives a string, local otherwise.\<close>

definition call ::
  "process \<Rightarrow> transport \<Rightarrow> callOptions \<Rightarrow> settlement completion \<times> process \<times> callOptions" where
  "call self client callOptions =
     (case lookup (client_endpoints self) (co_endpoint callOptions) of
        Some (Own (Remote endpoint)) \<Rightarrow>
          (let (outcome, callOptions') = callRemote client endpoint callOptions
           in (Returned outcome, self, callOptions'))
      | endpoint \<Rightarrow> callLocal self endpoint callOptions)"

section \<open>The states of a process\<close>

text \<open>
  The constructors: \<open>new Server(options)\<close> and \<open>new Client(options)\<close> take their
  registries and options and start with the empty cache object \<open>{}\<close>, which has no own
  property. A process goes on from there by calls of the Client and requests to the
  Server's router.
\<close>

definition initial_process ::
  "(string \<Rightarrow> descriptor option) \<Rightarrow> (string \<Rightarrow> descriptor option) \<Rightarrow> bool \<Rightarrow> string list
     \<Rightarrow> process" where
  "initial_process server_registry client_registry request_ids header_names =
     \<lparr>server_endpoints = server_registry, server_instances = (\<lambda>k. None),
      includeRequestId = request_ids, headerParams = header_names,
      client_endpoints = client_registry, client_instances = (\<lambda>k. None),
      constructed = 0\<rparr>"

inductive reachable :: "process \<Rightarrow> bool" where
  constructed_now:
    "reachable (initial_process server_registry client_registry request_ids header_names)"
| after_call:
    "reachable self \<Longrightarrow> reachable (fst (snd (call self client callOptions)))"
| after_request:
    "reachable self \<Longrightarrow> reachable (snd (snd (processMethod self method req res)))"

text \<open>
  In every state a process reaches, the Client's cache holds own entries only under
  keys that are own keys of its registry with a handler type, and under no name of an
  inherited member: an entry is made only where the cache lookup found nothing and
  \<open>new\<close> returned.
\<close>

definition client_cache_sound :: "process \<Rightarrow> bool" where
  "client_cache_sound self =
     (\<forall>k. client_instances self k \<noteq> None
        \<longrightarrow> \<not> inherited k \<and> (\<exists>cls. client_endpoints self k = Some (Local cls)))"

section \<open>Sample inputs\<close>

text \<open>
  Concrete handlers, registries, requests and call options, used where a statement is
  evaluated at an explicit input. A registry is given by the own properties of the
  registry object; a sample process is freshly constructed, Server and Client on the
  same registry.
\<close>

definition resolving :: "jsval \<Rightarrow> handler_class" where
  "resolving v = (\<lambda>name. if name = ''get'' then Some (\<lambda>params meta. Resolved v) else None)"

definition echo :: handler_class where
  "echo = (\<lambda>name. if name = ''get'' \<or> name = ''post''
                  then Some (\<lambda>params meta. Resolved params) else None)"

definition registry_of :: "(string \<times> descriptor) list \<Rightarrow> string \<Rightarrow> descriptor option" where
  "registry_of entries = map_of entries"

definition process_of :: "(string \<times> descriptor) list \<Rightarrow> process" where
  "process_of entries = initial_process (registry_of entries) (registry_of entries) False []"

definition get_request :: "string \<Rightarrow> request" where
  "get_request url =
     \<lparr>originalUrl = url, baseUrl = ''/api'', body = [], body_bare = False, query = [],
      rawBody = None, header = (\<lambda>name. None)\<rparr>"

text \<open>A form post: the URL-encoded body \<open>text=hi\<close>, parsed into an object without prototype.\<close>

definition form_request :: "string \<Rightarrow> request" where
  "form_request url =
     (get_request url)\<lparr>body := [(''text'', JStr ''hi'')], body_bare := True\<rparr>"

definition plain_call :: "string \<Rightarrow> callOptions" where
  "plain_call key =
     \<lparr>co_endpoint = key, co_method = None, co_params = JObj [], co_parser = None,
      co_content_type = None\<rparr>"

definition responding :: "jsval \<Rightarrow> transport" where
  "responding b = (\<lambda>method url clientOptions. TransportSuccess b)"

definition typed_call :: "string \<Rightarrow> callOptions" where
  "typed_call key = (plain_call key)\<lparr>co_content_type := Some ''text/plain''\<rparr>"

definition authorized_request :: "string \<Rightarrow> request" where
  "authorized_request a =
     (get_request ''/api/slack'')
       \<lparr>header := (\<lambda>name. if name = ''Authorization'' then Some a else None)\<rparr>"

definition merge_request :: request where
  "merge_request =
     (get_request ''/api/slack?x=2'')
       \<lparr>body := [(''x'', JNum 1)], query := [(''x'', JStr ''2'')]\<rparr>"

text \<open>
  One process in which the key \<open>slack\<close> is dispatched first by the router and then by
  the client.
\<close>

definition after_router_dispatch :: process where
  "after_router_dispatch =
     snd (snd (processEndpoint (process_of [(''slack'', Local echo)]) ''slack'' ''get''
                 (get_request ''/api/slack'') fresh_response))"

definition after_client_dispatch :: process where
  "after_client_dispatch =
     fst (snd (call after_router_dispatch (responding JNull) (plain_call ''slack'')))"

section \<open>The response envelopes of the wire protocol\<close>

text \<open>
  What a client of the router accepts as a success (a redirect, or a JSON body under
  status 200) and as an error envelope (a numeric status \<open>n\<close> with the body
  \<open>{error: {code: n, message: <string>}}\<close>).
\<close>

definition success_envelope :: "reply \<Rightarrow> bool" where
  "success_envelope r = (case r of JsonReply st b \<Rightarrow> st = JNum 200 | RedirectReply u \<Rightarrow> True)"

definition error_envelope :: "reply \<Rightarrow> bool" where
  "error_envelope r =
     (case r of
        JsonReply st b \<Rightarrow>
          (case st of
             JNum n \<Rightarrow>
               (case get_prop (get_prop b ''error'') ''message'' of
                  JStr m \<Rightarrow> b = error_body (JNum n) (JStr m)
                | _ \<Rightarrow> False)
           | _ \<Rightarrow> False)
      | RedirectReply u \<Rightarrow> False)"

text \<open>The response after one of the router's own failures, such as its 404.\<close>

definition failed_with :: "int \<Rightarrow> string \<Rightarrow> response \<Rightarrow> response" where
  "failed_with st msg res =
     res\<lparr>statusCode := JNum st,
         sent := sent res @ [JsonReply (JNum st) (error_body (JNum st) (JStr msg))]\<rparr>"

text \<open>
  The lengths of the prefixes of the segment list whose joined path the registry lookup
  answers with a truthy value: the candidates of the longest-prefix match.
\<close>

definition matching_lengths :: "process \<Rightarrow> string list \<Rightarrow> nat set" where
  "matching_lengths self segments =
     {n. 1 \<le> n \<and> n \<le> length segments
         \<and> truthy_endpoint (lookup (server_endpoints self) (join path_sep (take n segments)))}"

declare processMethod_loop.simps [simp del]

section \<open>Response encoding of a success value\<close>

lemma to_int32_small:
  assumes "0 \<le> n" and "n \<le> 999"
  shows "to_int32 n = n"
proof -
  have "0 \<le> n + 2 ^ 31" and "n + 2 ^ 31 < (2 ^ 32 :: int)"
    using assms by simp_all
  then have "(n + 2 ^ 31) mod 2 ^ 32 = n + 2 ^ 31"
    by (rule mod_pos_pos_trivial)
  then show ?thesis by (simp add: to_int32_def)
qed

lemma sendable_status:
  assumes "100 \<le> n" and "n \<le> 999"
  shows "sendable (JNum n)" and "status_number (JNum n) = n"
  using assms to_int32_small [of n] by (simp_all add: sendable_def)

lemma sendable_200: "sendable (JNum 200)"
  by (rule sendable_status) simp_all

lemma status_number_200: "to_int32 200 = 200"
  by (rule to_int32_small) simp_all

lemma hasOwnProperty_callable:
  "can_call_hasOwnProperty v \<Longrightarrow> hasOwnProperty v k = Returned (has_own v k)"
  by (cases v) (simp_all add: hasOwnProperty_def)

lemma respondWithSuccess_callable:
  assumes "can_call_hasOwnProperty result"
  shows "respondWithSuccess res result =
           (if has_own result ''_raw'' then res_json (get_prop result ''_raw'') res
            else if has_own result ''_redirect''
            then res_redirect (get_prop result ''_redirect'') res
            else if has_own result ''data'' then res_json result res
            else res_json (JObj [(''data'', result)]) res)"
  by (simp add: respondWithSuccess_def hasOwnProperty_callable [OF assms] split: bool.splits)

lemma respondWithSuccess_fault:
  assumes "\<not> can_call_hasOwnProperty result"
  shows "respondWithSuccess res result =
           (Some (if nullish result then property_of_nullish else not_a_function), res)"
  using assms by (simp add: respondWithSuccess_def hasOwnProperty_def)

text \<open>
  Claim C1, at the input that separates the two orders. A result with both \<open>_redirect\<close>
  and \<open>_raw\<close> is answered with the \<open>_raw\<close> value as the JSON body, not with a redirect:
  the source tests \<open>_raw\<close> before \<open>_redirect\<close>.
\<close>

theorem respondWithSuccess_redirect_and_raw:
  "respondWithSuccess fresh_response
       (JObj [(''_redirect'', JStr ''/login''), (''_raw'', JStr ''hi'')])
     = (None, \<lparr>statusCode = JNum 200, sent = [JsonReply (JNum 200) (JStr ''hi'')]\<rparr>)
   \<and> respondWithSuccess fresh_response
       (JObj [(''_redirect'', JStr ''/login''), (''_raw'', JStr ''hi'')])
     \<noteq> (None, \<lparr>statusCode = JNum 302, sent = [RedirectReply (JStr ''/login'')]\<rparr>)"
  by (simp add: respondWithSuccess_callable fresh_response_def res_json_def
      sendable_200 status_number_200)

text \<open>
  Claim C1, amended to the order of the code. Take a success value on which
  \<open>hasOwnProperty\<close> can be called: not null or undefined, not an object without a
  prototype, and without an own key \<open>hasOwnProperty\<close>. On a fresh response exactly one
  reply is sent: if the result has a \<open>_raw\<close> key the body is the \<open>_raw\<close> value,
  unwrapped, whatever other keys are present; otherwise if it has a \<open>_redirect\<close> key a
  redirect to that value is issued and no body is encoded; otherwise if it has a \<open>data\<close>
  key the body is the result itself; otherwise the body is \<open>{data: result}\<close>. Every
  JSON reply goes out under status 200. On any other value the first test throws a
  TypeError and nothing is sent.
\<close>

theorem respondWithSuccess_encoding:
  "respondWithSuccess fresh_response result =
     (if can_call_hasOwnProperty result
      then (None,
            if has_own result ''_raw''
            then \<lparr>statusCode = JNum 200,
                  sent = [JsonReply (JNum 200) (get_prop result ''_raw'')]\<rparr>
            else if has_own result ''_redirect''
            then \<lparr>statusCode = JNum 302,
                  sent = [RedirectReply (get_prop result ''_redirect'')]\<rparr>
            else if has_own result ''data''
            then \<lparr>statusCode = JNum 200, sent = [JsonReply (JNum 200) result]\<rparr>
            else \<lparr>statusCode = JNum 200,
                  sent = [JsonReply (JNum 200) (JObj [(''data'', result)])]\<rparr>)
      else (Some (if nullish result then property_of_nullish else not_a_function),
            fresh_response))"
proof (cases "can_call_hasOwnProperty result")
  case True
  then show ?thesis
    by (simp add: respondWithSuccess_callable fresh_response_def res_json_def
        res_redirect_def sendable_200 status_number_200)
next
  case False
  then show ?thesis
    by (simp add: respondWithSuccess_fault)
qed

theorem respondWithSuccess_encoding_witness:
  "respondWithSuccess fresh_response (JObj [(''_redirect'', JStr ''/login'')])
       = (None, \<lparr>statusCode = JNum 302, sent = [RedirectReply (JStr ''/login'')]\<rparr>)
   \<and> respondWithSuccess fresh_response (JObj [(''id'', JNum 7)])
       = (None, \<lparr>statusCode = JNum 200,
                 sent = [JsonReply (JNum 200) (JObj [(''data'', JObj [(''id'', JNum 7)])])]\<rparr>)
   \<and> respondWithSuccess fresh_response (JBare [(''id'', JNum 7)])
       = (Some not_a_function, fresh_response)"
  using respondWithSuccess_encoding [of "JObj [(''_redirect'', JStr ''/login'')]"]
        respondWithSuccess_encoding [of "JObj [(''id'', JNum 7)]"]
        respondWithSuccess_encoding [of "JBare [(''id'', JNum 7)]"]
  by simp

section \<open>Success values the encoder cannot take\<close>

lemma respondWithError_fault:
  assumes "e = property_of_nullish \<or> e = not_a_function"
  shows "respondWithError res e = (Some invalid_status_code, res\<lparr>statusCode := JUndefined\<rparr>)"
  using assms
  by (auto simp add: respondWithError_def res_json_def res_status_def sendable_def
      property_of_nullish_def not_a_function_def)

text \<open>
  Claim C10, at a concrete request: a form post to a handler that resolves with the
  params it was given. The params object has no prototype, so the result is not null,
  yet the success encoding faults on it and the router sends nothing at all.
\<close>

theorem echo_of_form_post_gets_no_response:
  "processEndpoint (process_of [(''slack'', Local echo)]) ''slack'' ''post''
       (form_request ''/api/slack'') fresh_response
     = (Some invalid_status_code, \<lparr>statusCode = JUndefined, sent = []\<rparr>,
        (process_of [(''slack'', Local echo)])
          \<lparr>server_instances := [''slack'' \<mapsto> \<lparr>ident = 0, methods = echo\<rparr>],
           constructed := Suc 0\<rparr>)"
proof -
  let ?p = "process_of [(''slack'', Local echo)]"
  let ?i = "\<lparr>ident = 0, methods = echo\<rparr>"
  let ?p' = "?p\<lparr>server_instances := [''slack'' \<mapsto> ?i], constructed := Suc 0\<rparr>"
  have ge: "getEndpoint ?p ''slack'' = Returned (Own ?i, ?p')"
    by (simp add: getEndpoint_def lookup_def inherited_def object_prototype_members_def
        process_of_def initial_process_def registry_of_def)
  have m: "echo ''post'' = Some (\<lambda>params meta. Resolved params)"
    by (simp add: echo_def)
  have params: "params_object ?p' ''post'' (form_request ''/api/slack'')
                  = JBare (extractParams ?p' ''post'' (form_request ''/api/slack''))"
    by (simp add: params_object_def form_request_def)
  show ?thesis
    by (simp add: processEndpoint_def ge m params respondWithSuccess_fault
        respondWithError_fault fresh_response_def)
qed

text \<open>
  Claim C10, amended. Let the router dispatch, on a response whose status can be sent,
  to a handler whose verb method resolves with \<open>result\<close>. If \<open>hasOwnProperty\<close> can be
  called on \<open>result\<close>, exactly one reply is sent, and on a fresh response (status 200)
  it is a success reply. Otherwise (\<open>result\<close> is null or undefined, or has no
  prototype, or has an own key \<open>hasOwnProperty\<close>) the success encoding faults before
  any of its branches; the fault is handed to \<open>respondWithError\<close> as if it were a
  failure value, and since a TypeError has no \<open>status\<close>, sending under it throws in
  turn: nothing is sent, neither a success nor an error envelope.
\<close>

theorem processEndpoint_success_domain:
  assumes "getEndpoint self path = Returned (endpoint, self')"
      and "methods_of endpoint method = Some m"
      and "m (params_object self' method req) (request_meta req) = Resolved result"
      and "sendable (statusCode res)"
  shows "(if can_call_hasOwnProperty result
          then \<exists>r res'. processEndpoint self path method req res = (None, res', self')
                  \<and> sent res' = sent res @ [r]
                  \<and> (statusCode res = JNum 200 \<longrightarrow> success_envelope r)
          else processEndpoint self path method req res
                 = (Some invalid_status_code, res\<lparr>statusCode := JUndefined\<rparr>, self'))"
proof (cases "can_call_hasOwnProperty result")
  case False
  then show ?thesis
    using assms(1-3)
    by (simp add: processEndpoint_def respondWithSuccess_fault respondWithError_fault)
next
  case True
  show ?thesis
    using assms True
    by (auto simp add: processEndpoint_def respondWithSuccess_callable
        res_json_def res_redirect_def success_envelope_def status_number_200)
qed

theorem processEndpoint_success_domain_witness:
  "processEndpoint (process_of [(''nothing'', Local (resolving JNull))]) ''nothing'' ''get''
      (get_request ''/api/nothing'') fresh_response
    = (Some invalid_status_code, \<lparr>statusCode = JUndefined, sent = []\<rparr>,
       (process_of [(''nothing'', Local (resolving JNull))])
         \<lparr>server_instances := [''nothing'' \<mapsto> \<lparr>ident = 0, methods = resolving JNull\<rparr>],
          constructed := Suc 0\<rparr>)
   \<and> (\<exists>r res'.
         processEndpoint (process_of [(''one'', Local (resolving (JNum 1)))]) ''one'' ''get''
             (get_request ''/api/one'') fresh_response
           = (None, res',
               (process_of [(''one'', Local (resolving (JNum 1)))])
                 \<lparr>server_instances := [''one'' \<mapsto> \<lparr>ident = 0, methods = resolving (JNum 1)\<rparr>],
                  constructed := Suc 0\<rparr>)
         \<and> sent res' = [r] \<and> success_envelope r)"
proof -
  let ?p = "process_of [(''nothing'', Local (resolving JNull))]"
  let ?i = "\<lparr>ident = 0, methods = resolving JNull\<rparr>"
  let ?p' = "?p\<lparr>server_instances := [''nothing'' \<mapsto> ?i], constructed := Suc 0\<rparr>"
  let ?req = "get_request ''/api/nothing''"
  have s: "sendable (statusCode fresh_response)"
    by (simp add: fresh_response_def sendable_200)
  have a: "getEndpoint ?p ''nothing'' = Returned (Own ?i, ?p')"
    by (simp add: getEndpoint_def lookup_def inherited_def object_prototype_members_def
        process_of_def initial_process_def registry_of_def)
  have b: "methods_of (Own ?i) ''get'' = Some (\<lambda>params meta. Resolved JNull)"
    by (simp add: resolving_def)
  have c: "(\<lambda>params meta. Resolved JNull) (params_object ?p' ''get'' ?req) (request_meta ?req)
             = Resolved JNull"
    by simp
  have first: "processEndpoint ?p ''nothing'' ''get'' ?req fresh_response
    = (Some invalid_status_code, \<lparr>statusCode = JUndefined, sent = []\<rparr>, ?p')"
    using processEndpoint_success_domain [OF a b c s]
    by (simp add: fresh_response_def)
  let ?q = "process_of [(''one'', Local (resolving (JNum 1)))]"
  let ?j = "\<lparr>ident = 0, methods = resolving (JNum 1)\<rparr>"
  let ?q' = "?q\<lparr>server_instances := [''one'' \<mapsto> ?j], constructed := Suc 0\<rparr>"
  let ?req1 = "get_request ''/api/one''"
  have a1: "getEndpoint ?q ''one'' = Returned (Own ?j, ?q')"
    by (simp add: getEndpoint_def lookup_def inherited_def object_prototype_members_def
        process_of_def initial_process_def registry_of_def)
  have b1: "methods_of (Own ?j) ''get'' = Some (\<lambda>params meta. Resolved (JNum 1))"
    by (simp add: resolving_def)
  have c1: "(\<lambda>params meta. Resolved (JNum 1)) (params_object ?q' ''get'' ?req1)
             (request_meta ?req1) = Resolved (JNum 1)"
    by simp
  have second: "\<exists>r res'. processEndpoint ?q ''one'' ''get'' ?req1 fresh_response
                   = (None, res', ?q') \<and> sent res' = [r] \<and> success_envelope r"
    using processEndpoint_success_domain [OF a1 b1 c1 s]
    by (simp add: fresh_response_def)
  show ?thesis using first second by blast
qed

section \<open>What the router and the client change in the process\<close>

lemma getEndpoint_Returned:
  assumes "getEndpoint self path = Returned (endpoint, self')"
  shows "(lookup (server_instances self) path = Some endpoint \<and> self' = self)
       \<or> (lookup (server_instances self) path = None
          \<and> (\<exists>inst. endpoint = Own inst
                \<and> construct (lookup (server_endpoints self) path) (constructed self)
                    = Returned inst
                \<and> self' = self\<lparr>server_instances := (server_instances self)(path \<mapsto> inst),
                                constructed := Suc (constructed self)\<rparr>))"
  using assms
  by (auto simp add: getEndpoint_def split: option.splits completion.splits)

lemma getEndpoint_again:
  assumes "getEndpoint self path = Returned (endpoint, self')"
  shows "getEndpoint self' path = Returned (endpoint, self')"
proof -
  from getEndpoint_Returned [OF assms] show ?thesis
  proof
    assume "lookup (server_instances self) path = Some endpoint \<and> self' = self"
    then show ?thesis by (simp add: getEndpoint_def)
  next
    assume "lookup (server_instances self) path = None
          \<and> (\<exists>inst. endpoint = Own inst
                \<and> construct (lookup (server_endpoints self) path) (constructed self)
                    = Returned inst
                \<and> self' = self\<lparr>server_instances := (server_instances self)(path \<mapsto> inst),
                                constructed := Suc (constructed self)\<rparr>)"
    then obtain inst where "endpoint = Own inst"
      and "self' = self\<lparr>server_instances := (server_instances self)(path \<mapsto> inst),
                       constructed := Suc (constructed self)\<rparr>"
      by blast
    then show ?thesis by (simp add: getEndpoint_def lookup_def)
  qed
qed

lemma processEndpoint_state:
  "snd (snd (processEndpoint self path method req res))
     = (case getEndpoint self path of Threw e \<Rightarrow> self | Returned (endpoint, self') \<Rightarrow> self')"
  by (simp add: processEndpoint_def
      split: completion.splits option.splits settlement.splits prod.splits)

lemma getEndpoint_client_part:
  assumes "getEndpoint self path = Returned (endpoint, self')"
  shows "client_instances self' = client_instances self
       \<and> client_endpoints self' = client_endpoints self
       \<and> server_endpoints self' = server_endpoints self"
  using getEndpoint_Returned [OF assms] by auto

lemma processEndpoint_client_part:
  "client_instances (snd (snd (processEndpoint self path method req res)))
     = client_instances self
   \<and> client_endpoints (snd (snd (processEndpoint self path method req res)))
     = client_endpoints self"
proof (cases "getEndpoint self path")
  case (Threw e)
  then show ?thesis by (simp add: processEndpoint_state)
next
  case (Returned r)
  obtain endpoint self' where r: "r = (endpoint, self')" by (cases r)
  show ?thesis
    using Returned r getEndpoint_client_part [of self path endpoint self']
    by (simp add: processEndpoint_state)
qed

lemma processMethod_loop_client_part:
  "client_instances (snd (snd (processMethod_loop self verb req res segments)))
     = client_instances self
   \<and> client_endpoints (snd (snd (processMethod_loop self verb req res segments)))
     = client_endpoints self"
proof (induction self verb req res segments rule: processMethod_loop.induct)
  case (1 self verb req res segments)
  show ?case
  proof (cases "segments = []")
    case True
    then show ?thesis
      by (simp add: processMethod_loop.simps [of _ _ _ _ "[]"] split: prod.splits)
  next
    case False
    show ?thesis
    proof (cases "truthy_endpoint (lookup (server_endpoints self) (join path_sep segments))")
      case True
      then show ?thesis
        using False processEndpoint_client_part
        by (simp add: processMethod_loop.simps [of _ _ _ _ segments])
    next
      case miss: False
      then show ?thesis
        using False "1.IH" by (simp add: processMethod_loop.simps [of _ _ _ _ segments])
    qed
  qed
qed

lemma processMethod_client_part:
  "client_instances (snd (snd (processMethod self method req res))) = client_instances self
   \<and> client_endpoints (snd (snd (processMethod self method req res))) = client_endpoints self"
  using processMethod_loop_client_part
  by (simp add: processMethod_def split: option.splits)

lemma callLocal_hit:
  assumes "lookup (client_instances self) (co_endpoint callOptions) = Some inst"
  shows "callLocal self endpoint callOptions
           = (Returned (callLocal_executor inst (with_defaults callOptions)), self,
              with_defaults callOptions)"
  using assms by (simp add: callLocal_def Let_def with_defaults_def)

lemma callLocal_miss:
  assumes "lookup (client_instances self) (co_endpoint callOptions) = None"
  shows "callLocal self endpoint callOptions
           = (case construct endpoint (constructed self) of
                Threw e \<Rightarrow> (Threw e, self, with_defaults callOptions)
              | Returned inst \<Rightarrow>
                  (Returned (callLocal_executor (Own inst) (with_defaults callOptions)),
                   self\<lparr>client_instances :=
                          (client_instances self)(co_endpoint callOptions \<mapsto> inst),
                        constructed := Suc (constructed self)\<rparr>,
                   with_defaults callOptions))"
  using assms by (simp add: callLocal_def Let_def with_defaults_def split: completion.splits)

lemma call_local:
  assumes "\<forall>url. client_endpoints self (co_endpoint callOptions) \<noteq> Some (Remote url)"
  shows "call self client callOptions
           = callLocal self (lookup (client_endpoints self) (co_endpoint callOptions)) callOptions"
  using assms
  by (auto simp add: call_def lookup_def split: option.splits found.splits descriptor.splits)

lemma call_remote:
  assumes "client_endpoints self (co_endpoint callOptions) = Some (Remote url)"
  shows "call self client callOptions
           = (Returned (fst (callRemote client url callOptions)), self,
              snd (callRemote client url callOptions))"
  using assms by (simp add: call_def lookup_def split: prod.splits)

lemma call_client_cache_sound:
  assumes "client_cache_sound self"
  shows "client_cache_sound (fst (snd (call self client callOptions)))"
proof -
  let ?key = "co_endpoint callOptions"
  show ?thesis
  proof (cases "\<exists>url. client_endpoints self ?key = Some (Remote url)")
    case True
    then show ?thesis using assms call_remote by auto
  next
    case local: False
    then have c: "call self client callOptions
                    = callLocal self (lookup (client_endpoints self) ?key) callOptions"
      using call_local by simp
    show ?thesis
    proof (cases "lookup (client_instances self) ?key")
      case (Some inst)
      then show ?thesis using assms c by (simp add: callLocal_hit)
    next
      case None
      then have fresh: "\<not> inherited ?key"
        by (simp add: lookup_def split: option.splits if_splits)
      show ?thesis
      proof (cases "client_endpoints self ?key")
        case absent: None
        then have "lookup (client_endpoints self) ?key = None"
          using fresh by (simp add: lookup_def)
        then show ?thesis using assms c None by (simp add: callLocal_miss)
      next
        case (Some d)
        then obtain cls where d: "d = Local cls"
          using local by (cases d) auto
        then have "lookup (client_endpoints self) ?key = Some (Own (Local cls))"
          using Some by (simp add: lookup_def)
        then show ?thesis
          using assms c None fresh Some d
          by (simp add: callLocal_miss client_cache_sound_def)
      qed
    qed
  qed
qed

lemma reachable_client_cache_sound: "reachable self \<Longrightarrow> client_cache_sound self"
proof (induction rule: reachable.induct)
  case (constructed_now server_registry client_registry request_ids header_names)
  show ?case by (simp add: client_cache_sound_def initial_process_def)
next
  case (after_call self client callOptions)
  then show ?case by (simp add: call_client_cache_sound)
next
  case (after_request self verb req res)
  then show ?case
    using processMethod_client_part [of self verb req res]
    by (simp add: client_cache_sound_def)
qed

section \<open>A call to a key the registry does not have\<close>

text \<open>
  Claim C3, at a concrete input: with an empty registry, \<open>call\<close> on the key \<open>missing\<close>
  throws a TypeError out of \<open>call\<close> itself; no promise is returned, so no outcome with
  status 404 is settled.
\<close>

theorem call_missing_endpoint_throws_example:
  "fst (call (process_of []) (responding JNull) (plain_call ''missing''))
     = Threw not_a_constructor"
proof -
  let ?p = "process_of []"
  let ?c = "plain_call ''missing''"
  have l: "\<forall>url. client_endpoints ?p (co_endpoint ?c) \<noteq> Some (Remote url)"
    by (simp add: process_of_def initial_process_def registry_of_def)
  have r: "lookup (client_endpoints ?p) (co_endpoint ?c) = None"
    by (simp add: lookup_def inherited_def object_prototype_members_def process_of_def
        initial_process_def registry_of_def plain_call_def)
  have m: "lookup (client_instances ?p) (co_endpoint ?c) = None"
    by (simp add: lookup_def inherited_def object_prototype_members_def process_of_def
        initial_process_def plain_call_def)
  show ?thesis
    by (simp add: call_local [OF l] callLocal_miss [OF m] r)
qed

text \<open>
  Claim C3, amended. In every state a process reaches, a call whose endpoint key is not
  a key of the registry settles no failure of status 404 and leaves the process as it
  is. When the key is not the name of a member that every object inherits, \<open>call\<close>
  throws a TypeError synchronously: it returns no promise and settles nothing. When
  the key is such a name (\<open>toString\<close>, \<open>constructor\<close>, ...) and the verb is one of
  \<open>get\<close>, \<open>post\<close>, \<open>put\<close>, \<open>delete\<close>, both lookups answer the inherited member, and
  \<open>call\<close> returns a promise that is rejected with a TypeError.
\<close>

theorem call_absent_endpoint:
  assumes "reachable self"
      and "client_endpoints self (co_endpoint callOptions) = None"
  shows "fst (snd (call self client callOptions)) = self
       \<and> (\<forall>msg. fst (call self client callOptions) \<noteq> Returned (Rejected (failure 404 msg)))
       \<and> (if inherited (co_endpoint callOptions)
          then or_default (co_method callOptions) ''get'' \<in> set [''get'', ''post'', ''put'', ''delete'']
               \<longrightarrow> fst (call self client callOptions) = Returned (Rejected not_a_function)
          else fst (call self client callOptions) = Threw not_a_constructor)"
proof -
  let ?key = "co_endpoint callOptions"
  have own: "client_instances self ?key = None"
    using reachable_client_cache_sound [OF assms(1)] assms(2)
    by (auto simp add: client_cache_sound_def)
  have c: "call self client callOptions
             = callLocal self (lookup (client_endpoints self) ?key) callOptions"
    using call_local assms(2) by simp
  show ?thesis
  proof (cases "inherited ?key")
    case True
    then have hit: "lookup (client_instances self) ?key = Some (Inherited ?key)"
      using own by (simp add: lookup_def)
    have "callLocal_executor (Inherited ?key) (with_defaults callOptions)
            = Rejected not_a_function"
      by (simp add: callLocal_executor_def)
    then show ?thesis
      using True c callLocal_hit [OF hit]
      by (simp add: failure_def not_a_function_def)
  next
    case False
    then have miss: "lookup (client_instances self) ?key = None"
      using own by (simp add: lookup_def)
    have "lookup (client_endpoints self) ?key = None"
      using False assms(2) by (simp add: lookup_def)
    then show ?thesis
      using False c callLocal_miss [OF miss] by simp
  qed
qed

theorem call_absent_endpoint_witness:
  "reachable (process_of [])
   \<and> client_endpoints (process_of []) (co_endpoint (plain_call ''missing'')) = None
   \<and> fst (call (process_of []) (responding JNull) (plain_call ''missing''))
       = Threw not_a_constructor
   \<and> fst (call (process_of []) (responding JNull) (plain_call ''toString''))
       = Returned (Rejected not_a_function)
   \<and> fst (snd (call (process_of []) (responding JNull) (plain_call ''missing'')))
       = process_of []"
proof -
  have r: "reachable (process_of [])"
    unfolding process_of_def by (rule reachable.constructed_now)
  have a: "client_endpoints (process_of []) (co_endpoint (plain_call ''missing'')) = None"
    by (simp add: process_of_def initial_process_def registry_of_def)
  have b: "client_endpoints (process_of []) (co_endpoint (plain_call ''toString'')) = None"
    by (simp add: process_of_def initial_process_def registry_of_def)
  have m: "\<not> inherited (co_endpoint (plain_call ''missing''))"
    by (simp add: inherited_def object_prototype_members_def plain_call_def)
  have t: "inherited (co_endpoint (plain_call ''toString''))"
    by (simp add: inherited_def object_prototype_members_def plain_call_def)
  have v: "or_default (co_method (plain_call ''toString'')) ''get''
             \<in> set [''get'', ''post'', ''put'', ''delete'']"
    by (simp add: or_default_def plain_call_def)
  show ?thesis
    using r a m t v
      call_absent_endpoint [OF r a, of "responding JNull"]
      call_absent_endpoint [OF r b, of "responding JNull"]
    by simp
qed

section \<open>Unwrapping the envelope of a remote response\<close>

text \<open>
  When the value under \<open>data\<close> is truthy the remote path unwraps it, and a body without
  a \<open>data\<close> key is passed on whole.
\<close>

lemma callRemote_unwraps_truthy_data:
  assumes "co_method callOptions = None" and "truthy v"
  shows "fst (callRemote (responding (JObj [(''data'', v)])) url callOptions)
           = Resolved (parser_or_identity (co_parser callOptions) v)"
  using assms
  by (simp add: callRemote_def loadClientOptions_def loadRequestMethod_def responding_def
      parser_or_identity_def or_default_def Let_def split: option.splits)

text \<open>
  Claim C4, evaluated on the response body \<open>{data: 0}\<close>: the \<open>data\<close> key is present, but
  the call resolves with the whole body \<open>{data: 0}\<close> instead of \<open>0\<close>, because the source
  tests the truth value of \<open>data.data\<close>, not the presence of the key.
\<close>

theorem callRemote_falsy_data_kept_wrapped:
  "fst (callRemote (responding (JObj [(''data'', JNum 0)])) ''http://h/api/count''
          (plain_call ''count''))
     = Resolved (JObj [(''data'', JNum 0)])"
  by (simp add: callRemote_def loadClientOptions_def loadRequestMethod_def responding_def
        plain_call_def parser_or_identity_def or_default_def Let_def)

lemma sample_local_call:
  assumes "\<not> inherited key"
  shows "fst (call (process_of [(key, Local (resolving v))]) client (plain_call key))
           = Returned (Resolved v)"
proof -
  let ?p = "process_of [(key, Local (resolving v))]"
  let ?c = "plain_call key"
  have l: "\<forall>url. client_endpoints ?p (co_endpoint ?c) \<noteq> Some (Remote url)"
    by (simp add: process_of_def initial_process_def registry_of_def plain_call_def)
  have r: "lookup (client_endpoints ?p) (co_endpoint ?c) = Some (Own (Local (resolving v)))"
    by (simp add: lookup_def process_of_def initial_process_def registry_of_def plain_call_def)
  have m: "lookup (client_instances ?p) (co_endpoint ?c) = None"
    using assms by (simp add: lookup_def process_of_def initial_process_def plain_call_def)
  have "call ?p client ?c = callLocal ?p (Some (Own (Local (resolving v)))) ?c"
    using call_local [OF l] r by simp
  then have "fst (call ?p client ?c)
               = Returned (callLocal_executor (Own \<lparr>ident = constructed ?p, methods = resolving v\<rparr>)
                             (with_defaults ?c))"
    by (simp add: callLocal_miss [OF m])
  moreover have "callLocal_executor (Own \<lparr>ident = constructed ?p, methods = resolving v\<rparr>)
                   (with_defaults ?c) = Resolved v"
    by (simp add: callLocal_executor_def with_defaults_def plain_call_def or_default_def
        parser_or_identity_def resolving_def)
  ultimately show ?thesis by simp
qed

lemma sample_remote_call:
  assumes "truthy (get_prop b ''data'') \<or> \<not> nullish b"
  shows "fst (call (process_of [(key, Remote url)]) (responding b) (plain_call key))
           = Returned (Resolved (if truthy (get_prop b ''data'') then get_prop b ''data''
                                 else b))"
proof -
  have "client_endpoints (process_of [(key, Remote url)]) (co_endpoint (plain_call key))
          = Some (Remote url)"
    by (simp add: process_of_def initial_process_def registry_of_def plain_call_def)
  then have "fst (call (process_of [(key, Remote url)]) (responding b) (plain_call key))
               = Returned (fst (callRemote (responding b) url (plain_call key)))"
    by (simp add: call_remote)
  moreover have "\<not> nullish b"
    using assms by (cases b) auto
  then have "fst (callRemote (responding b) url (plain_call key))
               = Resolved (if truthy (get_prop b ''data'') then get_prop b ''data'' else b)"
    by (simp add: callRemote_def loadClientOptions_def loadRequestMethod_def responding_def
        plain_call_def parser_or_identity_def or_default_def Let_def)
  ultimately show ?thesis by simp
qed

text \<open>
  Claim C5, evaluated on the value \<open>0\<close>: the key \<open>count\<close> registered as a URL whose
  server answers \<open>{data: 0}\<close> resolves with \<open>{data: 0}\<close>, the same key registered as a
  local handler that resolves with \<open>0\<close> resolves with \<open>0\<close>.
\<close>

theorem remote_and_local_differ_on_zero:
  "fst (call (process_of [(''count'', Remote ''http://h/api/count'')])
             (responding (JObj [(''data'', JNum 0)])) (plain_call ''count''))
     = Returned (Resolved (JObj [(''data'', JNum 0)]))
   \<and> fst (call (process_of [(''count'', Local (resolving (JNum 0)))])
             (responding (JObj [(''data'', JNum 0)])) (plain_call ''count''))
     = Returned (Resolved (JNum 0))"
proof -
  have k: "\<not> inherited ''count''"
    by (simp add: inherited_def object_prototype_members_def)
  have b: "truthy (get_prop (JObj [(''data'', JNum 0)]) ''data'')
             \<or> \<not> nullish (JObj [(''data'', JNum 0)])"
    by simp
  show ?thesis
    using sample_remote_call [OF b, of "''count''" "''http://h/api/count''"]
      sample_local_call [OF k, of "JNum 0" "responding (JObj [(''data'', JNum 0)])"]
    by simp
qed

text \<open>For a truthy value the two dispatch paths do settle alike.\<close>

lemma remote_and_local_agree_on_truthy:
  assumes "truthy v"
  shows "fst (call (process_of [(''k'', Remote url)]) (responding (JObj [(''data'', v)]))
                (plain_call ''k''))
         = fst (call (process_of [(''k'', Local (resolving v))])
                (responding (JObj [(''data'', v)])) (plain_call ''k''))"
proof -
  have k: "\<not> inherited ''k''"
    by (simp add: inherited_def object_prototype_members_def)
  have b: "truthy (get_prop (JObj [(''data'', v)]) ''data'') \<or> \<not> nullish (JObj [(''data'', v)])"
    by simp
  show ?thesis
    using assms sample_remote_call [OF b, of "''k''" url]
      sample_local_call [OF k, of v "responding (JObj [(''data'', v)])"]
    by simp
qed

section \<open>What a call changes\<close>

text \<open>What the two paths leave in the caller's options object.\<close>

lemma loadClientOptions_options:
  "fst (snd (loadClientOptions callOptions)) =
     callOptions\<lparr>co_content_type :=
                   (if co_content_type callOptions = Some [] then Some [] else None),
                 co_parser := Some (parser_or_identity (co_parser callOptions))\<rparr>"
proof (cases "co_content_type callOptions")
  case None
  then show ?thesis
    by (simp add: loadClientOptions_def Let_def case_prod_beta)
next
  case (Some ct)
  then show ?thesis
    by (cases "ct = []") (simp_all add: loadClientOptions_def Let_def case_prod_beta)
qed

lemma callRemote_options:
  "snd (callRemote client url callOptions) =
     callOptions\<lparr>co_content_type :=
                   (if co_content_type callOptions = Some [] then Some [] else None),
                 co_parser := Some (parser_or_identity (co_parser callOptions))\<rparr>"
proof -
  obtain clientOptions callOptions' rejected
    where l: "loadClientOptions callOptions = (clientOptions, callOptions', rejected)"
    by (cases "loadClientOptions callOptions")
  have "snd (callRemote client url callOptions) = callOptions'"
    by (simp add: callRemote_def l Let_def split: option.splits transport_result.splits)
  then show ?thesis
    using loadClientOptions_options [of callOptions] l by simp
qed

lemma callLocal_options:
  "snd (snd (callLocal self endpoint callOptions)) = with_defaults callOptions"
  by (cases "lookup (client_instances self) (co_endpoint callOptions)")
     (simp_all add: callLocal_hit callLocal_miss split: completion.splits)

lemma callLocal_state:
  "server_endpoints (fst (snd (callLocal self endpoint callOptions))) = server_endpoints self
   \<and> server_instances (fst (snd (callLocal self endpoint callOptions))) = server_instances self
   \<and> client_endpoints (fst (snd (callLocal self endpoint callOptions))) = client_endpoints self
   \<and> includeRequestId (fst (snd (callLocal self endpoint callOptions))) = includeRequestId self
   \<and> headerParams (fst (snd (callLocal self endpoint callOptions))) = headerParams self
   \<and> (\<forall>k. k \<noteq> co_endpoint callOptions
          \<longrightarrow> client_instances (fst (snd (callLocal self endpoint callOptions))) k
                = client_instances self k)"
  by (cases "lookup (client_instances self) (co_endpoint callOptions)")
     (simp_all add: callLocal_hit callLocal_miss split: completion.splits)

text \<open>
  Claim C9, at two concrete calls. A remote call made with \<open>'Content-Type': 'text/plain'\<close>
  leaves the caller's options object without its \<open>Content-Type\<close> key; a local call made
  without a \<open>method\<close> leaves \<open>method: 'get'\<close> written into the caller's object.
\<close>

theorem call_changes_options_example:
  "co_content_type (typed_call ''messages'') = Some ''text/plain''
   \<and> co_content_type (snd (snd (call (process_of [(''messages'', Remote ''http://h/api/messages'')])
         (responding (JObj [])) (typed_call ''messages'')))) = None
   \<and> co_method (plain_call ''slack'') = None
   \<and> co_method (snd (snd (call (process_of [(''slack'', Local echo)])
         (responding (JObj [])) (plain_call ''slack'')))) = Some ''get''"
proof -
  have remote: "client_endpoints (process_of [(''messages'', Remote ''http://h/api/messages'')])
                  (co_endpoint (typed_call ''messages'')) = Some (Remote ''http://h/api/messages'')"
    by (simp add: process_of_def initial_process_def registry_of_def typed_call_def plain_call_def)
  have local: "\<forall>url. client_endpoints (process_of [(''slack'', Local echo)])
                  (co_endpoint (plain_call ''slack'')) \<noteq> Some (Remote url)"
    by (simp add: process_of_def initial_process_def registry_of_def plain_call_def)
  have r: "snd (snd (call (process_of [(''messages'', Remote ''http://h/api/messages'')])
                 (responding (JObj [])) (typed_call ''messages'')))
             = snd (callRemote (responding (JObj [])) ''http://h/api/messages''
                      (typed_call ''messages''))"
    by (simp add: call_remote [OF remote])
  have l: "snd (snd (call (process_of [(''slack'', Local echo)])
                 (responding (JObj [])) (plain_call ''slack'')))
             = with_defaults (plain_call ''slack'')"
    by (simp add: call_local [OF local] callLocal_options)
  show ?thesis
    unfolding r l
    by (simp add: callRemote_options with_defaults_def typed_call_def plain_call_def
        or_default_def)
qed

text \<open>
  Claim C9, amended. Besides the network call (remote endpoints) and the instance cache
  (local endpoints), \<open>call\<close> normalises the caller's options object in place. It never
  changes \<open>endpoint\<close> or \<open>params\<close>, the registries, the Server's cache or its options,
  nor the Client's cache at any other key. It always writes \<open>parser\<close> (the caller's, or
  the identity). On the remote path it deletes a non-empty \<open>Content-Type\<close> and leaves
  \<open>method\<close> as it was; on the local path it writes \<open>method\<close> (the caller's, or
  \<open>get\<close>) and leaves \<open>Content-Type\<close> as it was.
\<close>

theorem call_frame:
  assumes "call self client callOptions = (outcome, self', callOptions')"
  shows "co_endpoint callOptions' = co_endpoint callOptions
       \<and> co_params callOptions' = co_params callOptions
       \<and> co_parser callOptions' = Some (parser_or_identity (co_parser callOptions))
       \<and> server_endpoints self' = server_endpoints self
       \<and> server_instances self' = server_instances self
       \<and> client_endpoints self' = client_endpoints self
       \<and> includeRequestId self' = includeRequestId self
       \<and> headerParams self' = headerParams self
       \<and> (\<forall>k. k \<noteq> co_endpoint callOptions
              \<longrightarrow> client_instances self' k = client_instances self k)
       \<and> (case client_endpoints self (co_endpoint callOptions) of
            Some (Remote url) \<Rightarrow>
              self' = self
              \<and> co_method callOptions' = co_method callOptions
              \<and> co_content_type callOptions'
                  = (if co_content_type callOptions = Some [] then Some [] else None)
          | _ \<Rightarrow>
              co_method callOptions' = Some (or_default (co_method callOptions) ''get'')
              \<and> co_content_type callOptions' = co_content_type callOptions)"
proof -
  have snd_eq: "snd (snd (call self client callOptions)) = callOptions'"
    and mid_eq: "fst (snd (call self client callOptions)) = self'"
    using assms by simp_all
  show ?thesis
  proof (cases "\<exists>url. client_endpoints self (co_endpoint callOptions) = Some (Remote url)")
    case True
    then obtain url where u: "client_endpoints self (co_endpoint callOptions) = Some (Remote url)"
      by blast
    show ?thesis
      using snd_eq mid_eq u callRemote_options [of client url callOptions]
      by (auto simp add: call_remote [OF u])
  next
    case False
    then have l: "\<forall>url. client_endpoints self (co_endpoint callOptions) \<noteq> Some (Remote url)"
      by simp
    let ?e = "lookup (client_endpoints self) (co_endpoint callOptions)"
    have c: "call self client callOptions = callLocal self ?e callOptions"
      using call_local [OF l] .
    have opts: "callOptions' = with_defaults callOptions"
      using snd_eq c callLocal_options [of self ?e callOptions] by simp
    have state: "self' = fst (snd (callLocal self ?e callOptions))"
      using mid_eq c by simp
    have shape: "(case client_endpoints self (co_endpoint callOptions) of
            Some (Remote url) \<Rightarrow>
              self' = self
              \<and> co_method callOptions' = co_method callOptions
              \<and> co_content_type callOptions'
                  = (if co_content_type callOptions = Some [] then Some [] else None)
          | _ \<Rightarrow>
              co_method callOptions' = Some (or_default (co_method callOptions) ''get'')
              \<and> co_content_type callOptions' = co_content_type callOptions)"
      using l opts by (auto simp add: with_defaults_def split: option.splits descriptor.splits)
    show ?thesis
      using shape opts state callLocal_state [of self ?e callOptions]
      by (simp add: with_defaults_def)
  qed
qed

theorem call_frame_witness:
  "call (process_of [(''messages'', Remote ''http://h/api/messages'')])
        (responding (JObj [(''data'', JStr ''ok'')])) (typed_call ''messages'')
     = (Returned (Resolved (JStr ''ok'')),
        process_of [(''messages'', Remote ''http://h/api/messages'')],
        (typed_call ''messages'')\<lparr>co_content_type := None, co_parser := Some (\<lambda>data. data)\<rparr>)
   \<and> co_params (snd (snd (call (process_of [(''messages'', Remote ''http://h/api/messages'')])
        (responding (JObj [(''data'', JStr ''ok'')])) (typed_call ''messages''))))
       = co_params (typed_call ''messages'')
   \<and> co_content_type (snd (snd (call (process_of [(''messages'', Remote ''http://h/api/messages'')])
        (responding (JObj [(''data'', JStr ''ok'')])) (typed_call ''messages''))))
       = None"
proof -
  let ?p = "process_of [(''messages'', Remote ''http://h/api/messages'')]"
  let ?c = "(typed_call ''messages'')\<lparr>co_content_type := None, co_parser := Some (\<lambda>data. data)\<rparr>"
  have remote: "client_endpoints ?p (co_endpoint (typed_call ''messages''))
                  = Some (Remote ''http://h/api/messages'')"
    by (simp add: process_of_def initial_process_def registry_of_def typed_call_def plain_call_def)
  have remote_run: "callRemote (responding (JObj [(''data'', JStr ''ok'')]))
                      ''http://h/api/messages'' (typed_call ''messages'')
                    = (Resolved (JStr ''ok''), ?c)"
    by (simp add: callRemote_def loadClientOptions_def loadRequestMethod_def typed_call_def
        plain_call_def responding_def or_default_def parser_or_identity_def Let_def)
  have run: "call ?p (responding (JObj [(''data'', JStr ''ok'')])) (typed_call ''messages'')
               = (Returned (Resolved (JStr ''ok'')), ?p, ?c)"
    by (simp add: call_remote [OF remote] remote_run)
  show ?thesis
    using run call_frame [OF run]
    by (simp add: typed_call_def plain_call_def)
qed

section \<open>The instance caches\<close>

lemma sample_getEndpoint:
  assumes "\<not> inherited key"
  shows "getEndpoint (process_of [(key, Local cls)]) key
           = Returned (Own \<lparr>ident = 0, methods = cls\<rparr>,
               (process_of [(key, Local cls)])
                 \<lparr>server_instances := [key \<mapsto> \<lparr>ident = 0, methods = cls\<rparr>],
                  constructed := Suc 0\<rparr>)"
  using assms
  by (simp add: getEndpoint_def lookup_def process_of_def initial_process_def registry_of_def)

lemma getEndpoint_cached:
  assumes "getEndpoint self path = Returned (endpoint, self')"
  shows "lookup (server_instances self') path = Some endpoint"
proof -
  from getEndpoint_Returned [OF assms] show ?thesis
  proof
    assume "lookup (server_instances self) path = Some endpoint \<and> self' = self"
    then show ?thesis by simp
  next
    assume "lookup (server_instances self) path = None
          \<and> (\<exists>inst. endpoint = Own inst
                \<and> construct (lookup (server_endpoints self) path) (constructed self)
                    = Returned inst
                \<and> self' = self\<lparr>server_instances := (server_instances self)(path \<mapsto> inst),
                                constructed := Suc (constructed self)\<rparr>)"
    then obtain inst where "endpoint = Own inst"
      and "self' = self\<lparr>server_instances := (server_instances self)(path \<mapsto> inst),
                       constructed := Suc (constructed self)\<rparr>"
      by blast
    then show ?thesis by (simp add: lookup_def)
  qed
qed

lemma slack_not_inherited: "\<not> inherited ''slack''"
  by (simp add: inherited_def object_prototype_members_def)

lemma after_router_dispatch_state:
  "after_router_dispatch
     = (process_of [(''slack'', Local echo)])
         \<lparr>server_instances := [''slack'' \<mapsto> \<lparr>ident = 0, methods = echo\<rparr>],
          constructed := Suc 0\<rparr>"
  by (simp add: after_router_dispatch_def processEndpoint_state
      sample_getEndpoint [OF slack_not_inherited])

lemma after_client_dispatch_state:
  "after_client_dispatch
     = after_router_dispatch
         \<lparr>client_instances := [''slack'' \<mapsto> \<lparr>ident = Suc 0, methods = echo\<rparr>],
          constructed := Suc (Suc 0)\<rparr>"
proof -
  let ?p = "after_router_dispatch"
  let ?c = "plain_call ''slack''"
  have l: "\<forall>url. client_endpoints ?p (co_endpoint ?c) \<noteq> Some (Remote url)"
    by (simp add: after_router_dispatch_state process_of_def initial_process_def
        registry_of_def plain_call_def)
  have r: "lookup (client_endpoints ?p) (co_endpoint ?c) = Some (Own (Local echo))"
    by (simp add: after_router_dispatch_state lookup_def process_of_def initial_process_def
        registry_of_def plain_call_def)
  have m: "lookup (client_instances ?p) (co_endpoint ?c) = None"
    using slack_not_inherited
    by (simp add: after_router_dispatch_state lookup_def process_of_def initial_process_def
        plain_call_def)
  have n: "constructed ?p = Suc 0" and e: "client_instances ?p = (\<lambda>k. None)"
    by (simp_all add: after_router_dispatch_state process_of_def initial_process_def)
  have k: "co_endpoint ?c = ''slack''"
    by (simp add: plain_call_def)
  have "call ?p (responding JNull) ?c = callLocal ?p (Some (Own (Local echo))) ?c"
    using call_local [OF l] r by simp
  then have "fst (snd (call ?p (responding JNull) ?c))
               = ?p\<lparr>client_instances :=
                       (client_instances ?p)(co_endpoint ?c \<mapsto> \<lparr>ident = constructed ?p, methods = echo\<rparr>),
                     constructed := Suc (constructed ?p)\<rparr>"
    by (simp add: callLocal_miss [OF m])
  then show ?thesis
    by (simp add: after_client_dispatch_def n e k)
qed

text \<open>
  Claim C8, at a concrete run. In one process the key \<open>slack\<close> is dispatched by the
  router and then by the client: the Server's cache and the Client's cache each hold an
  instance of their own (construction numbers 0 and 1), so the handler has been
  constructed twice for one key in one process, and the second dispatch did not reuse
  the instance of the first.
\<close>

theorem two_dispatchers_two_instances:
  "map_option ident (server_instances after_client_dispatch ''slack'') = Some 0
   \<and> map_option ident (client_instances after_client_dispatch ''slack'') = Some 1
   \<and> constructed after_client_dispatch = 2"
  by (simp add: after_client_dispatch_state after_router_dispatch_state)

text \<open>
  Claim C8, amended to one cache per dispatcher. Router: whenever \<open>getEndpoint\<close> hands
  out an endpoint object for \<open>path\<close>, that is the whole change a dispatch to \<open>path\<close>
  makes to the process; afterwards the Server's cache answers \<open>path\<close> with that same
  object, a second \<open>getEndpoint\<close> returns it and changes nothing, every later dispatch
  to \<open>path\<close> leaves the process as it is (nothing is constructed again), at most one
  instance was constructed, and no entry of the cache was evicted or replaced. For a
  key the registry maps to a handler type, and that is not the name of an inherited
  member, the object handed out is a handler instance. Client: the same for \<open>call\<close>
  on a key registered as a local handler; the second call runs on the cached object.
  Neither dispatcher touches the other's cache. (Under the name of an inherited member
  both caches always answer that member, and no handler is ever constructed.)
\<close>

theorem instance_reuse_per_dispatcher:
  "(getEndpoint self path = Returned (endpoint, self') \<longrightarrow>
        (\<forall>method req res. snd (snd (processEndpoint self path method req res)) = self')
      \<and> lookup (server_instances self') path = Some endpoint
      \<and> getEndpoint self' path = Returned (endpoint, self')
      \<and> (\<forall>method2 req2 res2.
            snd (snd (processEndpoint self' path method2 req2 res2)) = self')
      \<and> constructed self' \<le> Suc (constructed self)
      \<and> (\<forall>k i. server_instances self k = Some i \<longrightarrow> server_instances self' k = Some i)
      \<and> client_instances self' = client_instances self)
   \<and> (server_endpoints self path = Some (Local cls) \<and> \<not> inherited path \<longrightarrow>
        (\<exists>inst self'. getEndpoint self path = Returned (Own inst, self')
                      \<and> server_instances self' path = Some inst))
   \<and> (call self client callOptions = (Returned outcome, self'', callOptions')
        \<and> client_endpoints self (co_endpoint callOptions) = Some (Local cls) \<longrightarrow>
      (\<exists>inst. lookup (client_instances self'') (co_endpoint callOptions) = Some inst
         \<and> outcome = callLocal_executor inst callOptions'
         \<and> (\<forall>client2 callOptions2. co_endpoint callOptions2 = co_endpoint callOptions \<longrightarrow>
               fst (snd (call self'' client2 callOptions2)) = self''
               \<and> fst (call self'' client2 callOptions2)
                   = Returned (callLocal_executor inst
                       (snd (snd (call self'' client2 callOptions2)))))
         \<and> constructed self'' \<le> Suc (constructed self)
         \<and> (\<forall>k i. client_instances self k = Some i \<longrightarrow> client_instances self'' k = Some i)
         \<and> server_instances self'' = server_instances self
         \<and> (\<not> inherited (co_endpoint callOptions)
              \<longrightarrow> (\<exists>i. inst = Own i \<and> client_instances self'' (co_endpoint callOptions) = Some i))))
   \<and> (inherited path \<longrightarrow> (\<exists>member. getEndpoint self path = Returned (member, self)))
   \<and> (inherited (co_endpoint callOptions) \<longrightarrow> fst (snd (call self client callOptions)) = self)"
proof (intro conjI impI)
  assume ge: "getEndpoint self path = Returned (endpoint, self')"
  have again: "getEndpoint self' path = Returned (endpoint, self')"
    using getEndpoint_again [OF ge] .
  show "\<forall>method req res. snd (snd (processEndpoint self path method req res)) = self'"
    using ge by (simp add: processEndpoint_state)
  show "\<forall>method2 req2 res2. snd (snd (processEndpoint self' path method2 req2 res2)) = self'"
    using again by (simp add: processEndpoint_state)
  show "getEndpoint self' path = Returned (endpoint, self')"
    using again .
  show "lookup (server_instances self') path = Some endpoint"
    using getEndpoint_cached [OF ge] .
  show "constructed self' \<le> Suc (constructed self)"
    using getEndpoint_Returned [OF ge] by auto
  show "\<forall>k i. server_instances self k = Some i \<longrightarrow> server_instances self' k = Some i"
    using getEndpoint_Returned [OF ge] by (auto simp add: lookup_def split: option.splits)
  show "client_instances self' = client_instances self"
    using getEndpoint_client_part [OF ge] by simp
next
  assume reg: "server_endpoints self path = Some (Local cls) \<and> \<not> inherited path"
  show "\<exists>inst self'. getEndpoint self path = Returned (Own inst, self')
                      \<and> server_instances self' path = Some inst"
  proof (cases "server_instances self path")
    case None
    then show ?thesis
      using reg by (simp add: getEndpoint_def lookup_def)
  next
    case (Some inst)
    then show ?thesis
      by (simp add: getEndpoint_def lookup_def)
  qed
next
  assume a: "call self client callOptions = (Returned outcome, self'', callOptions')
        \<and> client_endpoints self (co_endpoint callOptions) = Some (Local cls)"
  let ?key = "co_endpoint callOptions"
  have l: "\<forall>url. client_endpoints self ?key \<noteq> Some (Remote url)"
    using a by simp
  have r: "lookup (client_endpoints self) ?key = Some (Own (Local cls))"
    using a by (simp add: lookup_def)
  have c: "callLocal self (Some (Own (Local cls))) callOptions
             = (Returned outcome, self'', callOptions')"
    using a call_local [OF l] r by simp
  have later: "\<And>inst. lookup (client_instances self'') ?key = Some inst \<Longrightarrow>
      client_endpoints self'' ?key = Some (Local cls) \<Longrightarrow>
      \<forall>client2 callOptions2. co_endpoint callOptions2 = ?key \<longrightarrow>
               fst (snd (call self'' client2 callOptions2)) = self''
               \<and> fst (call self'' client2 callOptions2)
                   = Returned (callLocal_executor inst
                       (snd (snd (call self'' client2 callOptions2))))"
  proof (intro allI impI)
    fix inst client2 and callOptions2 :: callOptions
    assume hit: "lookup (client_instances self'') ?key = Some inst"
      and reg: "client_endpoints self'' ?key = Some (Local cls)"
      and same: "co_endpoint callOptions2 = ?key"
    have l2: "\<forall>url. client_endpoints self'' (co_endpoint callOptions2) \<noteq> Some (Remote url)"
      using reg same by simp
    have hit2: "lookup (client_instances self'') (co_endpoint callOptions2) = Some inst"
      using hit same by simp
    show "fst (snd (call self'' client2 callOptions2)) = self''
               \<and> fst (call self'' client2 callOptions2)
                   = Returned (callLocal_executor inst
                       (snd (snd (call self'' client2 callOptions2))))"
      by (simp add: call_local [OF l2] callLocal_hit [OF hit2])
  qed
  show "\<exists>inst. lookup (client_instances self'') ?key = Some inst
         \<and> outcome = callLocal_executor inst callOptions'
         \<and> (\<forall>client2 callOptions2. co_endpoint callOptions2 = ?key \<longrightarrow>
               fst (snd (call self'' client2 callOptions2)) = self''
               \<and> fst (call self'' client2 callOptions2)
                   = Returned (callLocal_executor inst
                       (snd (snd (call self'' client2 callOptions2)))))
         \<and> constructed self'' \<le> Suc (constructed self)
         \<and> (\<forall>k i. client_instances self k = Some i \<longrightarrow> client_instances self'' k = Some i)
         \<and> server_instances self'' = server_instances self
         \<and> (\<not> inherited ?key
              \<longrightarrow> (\<exists>i. inst = Own i \<and> client_instances self'' ?key = Some i))"
  proof (cases "lookup (client_instances self) ?key")
    case (Some inst)
    then have eq: "self'' = self" "callOptions' = with_defaults callOptions"
      "outcome = callLocal_executor inst (with_defaults callOptions)"
      using c by (auto simp add: callLocal_hit)
    have own: "\<not> inherited ?key \<longrightarrow> (\<exists>i. inst = Own i \<and> client_instances self ?key = Some i)"
      using Some by (auto simp add: lookup_def split: option.splits if_splits)
    show ?thesis
      using Some eq own later [of inst] a by (intro exI [of _ inst]) simp
  next
    case None
    then have fresh: "client_instances self ?key = None"
      by (simp add: lookup_def split: option.splits)
    let ?i = "\<lparr>ident = constructed self, methods = cls\<rparr>"
    have eq: "self'' = self\<lparr>client_instances := (client_instances self)(?key \<mapsto> ?i),
                            constructed := Suc (constructed self)\<rparr>"
      "callOptions' = with_defaults callOptions"
      "outcome = callLocal_executor (Own ?i) (with_defaults callOptions)"
      using c by (auto simp add: callLocal_miss [OF None])
    have hit: "lookup (client_instances self'') ?key = Some (Own ?i)"
      using eq by (simp add: lookup_def)
    have reg: "client_endpoints self'' ?key = Some (Local cls)"
      using eq a by simp
    show ?thesis
      using hit eq fresh later [OF hit reg] by (intro exI [of _ "Own ?i"]) auto
  qed
next
  assume "inherited path"
  then obtain member where "lookup (server_instances self) path = Some member"
    by (cases "server_instances self path") (simp_all add: lookup_def)
  then show "\<exists>member. getEndpoint self path = Returned (member, self)"
    by (simp add: getEndpoint_def)
next
  assume i: "inherited (co_endpoint callOptions)"
  then obtain member
    where hit: "lookup (client_instances self) (co_endpoint callOptions) = Some member"
    by (cases "client_instances self (co_endpoint callOptions)") (simp_all add: lookup_def)
  show "fst (snd (call self client callOptions)) = self"
  proof (cases "\<exists>url. client_endpoints self (co_endpoint callOptions) = Some (Remote url)")
    case True
    then show ?thesis using call_remote by auto
  next
    case False
    then have "\<forall>url. client_endpoints self (co_endpoint callOptions) \<noteq> Some (Remote url)"
      by simp
    then show ?thesis
      by (simp add: call_local callLocal_hit [OF hit])
  qed
qed

theorem instance_reuse_per_dispatcher_witness:
  "getEndpoint (process_of [(''slack'', Local echo)]) ''slack''
     = Returned (Own \<lparr>ident = 0, methods = echo\<rparr>, after_router_dispatch)
   \<and> getEndpoint after_router_dispatch ''slack''
     = Returned (Own \<lparr>ident = 0, methods = echo\<rparr>, after_router_dispatch)
   \<and> lookup (server_instances after_router_dispatch) ''slack''
     = Some (Own \<lparr>ident = 0, methods = echo\<rparr>)
   \<and> constructed after_router_dispatch = 1"
proof -
  let ?p = "process_of [(''slack'', Local echo)]"
  let ?i = "\<lparr>ident = 0, methods = echo\<rparr>"
  have first: "getEndpoint ?p ''slack'' = Returned (Own ?i, after_router_dispatch)"
    by (simp add: sample_getEndpoint [OF slack_not_inherited] after_router_dispatch_state)
  have count: "constructed after_router_dispatch = 1"
    by (simp add: after_router_dispatch_state)
  show ?thesis
    using first count
      instance_reuse_per_dispatcher [of ?p "''slack''" "Own ?i" after_router_dispatch]
    by simp
qed

section \<open>Path resolution\<close>

lemma respond_failure:
  assumes "100 \<le> st" and "st \<le> 999"
  shows "respondWithError res (failure st msg) = (None, failed_with st msg res)"
  using sendable_status [OF assms]
  by (simp add: respondWithError_def failure_def res_json_def res_status_def res_end_def
      failed_with_def)

lemma matching_lengths_finite: "finite (matching_lengths self segments)"
  by (simp add: matching_lengths_def)

lemma matching_lengths_snoc_miss:
  assumes "\<not> truthy_endpoint (lookup (server_endpoints self) (join path_sep (xs @ [x])))"
  shows "matching_lengths self (xs @ [x]) = matching_lengths self xs"
proof -
  have "\<And>n. n \<le> length xs \<Longrightarrow> take n (xs @ [x]) = take n xs" by simp
  moreover have "\<And>n. n = Suc (length xs) \<Longrightarrow> take n (xs @ [x]) = xs @ [x]" by simp
  ultimately show ?thesis using assms
    unfolding matching_lengths_def
    by (auto simp add: le_Suc_eq)
qed

lemma matching_lengths_snoc_hit:
  assumes "truthy_endpoint (lookup (server_endpoints self) (join path_sep (xs @ [x])))"
  shows "Max (matching_lengths self (xs @ [x])) = Suc (length xs)"
    and "matching_lengths self (xs @ [x]) \<noteq> {}"
proof -
  have mem: "Suc (length xs) \<in> matching_lengths self (xs @ [x])"
    using assms by (simp add: matching_lengths_def)
  then show "matching_lengths self (xs @ [x]) \<noteq> {}" by blast
  show "Max (matching_lengths self (xs @ [x])) = Suc (length xs)"
    by (rule Max_eqI) (use mem in \<open>auto simp add: matching_lengths_def\<close>)
qed

lemma matching_lengths_Max_le:
  assumes "matching_lengths self xs \<noteq> {}"
  shows "Max (matching_lengths self xs) \<le> length xs"
proof -
  have "Max (matching_lengths self xs) \<in> matching_lengths self xs"
    using matching_lengths_finite assms by (rule Max_in)
  then show ?thesis by (simp add: matching_lengths_def)
qed

text \<open>
  The loop finds the longest prefix at which the registry lookup is truthy: by
  induction on the segment list from its end, which is where the loop drops segments.
\<close>

lemma processMethod_loop_longest:
  assumes "sendable (JNum 404)"
  shows "processMethod_loop self method req res segments =
     (if matching_lengths self segments = {}
      then (None, failed_with 404 ''api endpoint not found'' res, self)
      else processEndpoint self
             (join path_sep (take (Max (matching_lengths self segments)) segments))
             method req res)"
proof (induction segments rule: rev_induct)
  case Nil
  show ?case
    by (simp add: processMethod_loop.simps [of _ _ _ _ "[]"] respond_failure
        matching_lengths_def)
next
  case (snoc x xs)
  show ?case
  proof (cases "truthy_endpoint (lookup (server_endpoints self) (join path_sep (xs @ [x])))")
    case True
    then show ?thesis
      using matching_lengths_snoc_hit [OF True]
      by (simp add: processMethod_loop.simps [of _ _ _ _ "xs @ [x]"])
  next
    case False
    have unfold: "processMethod_loop self method req res (xs @ [x])
                    = processMethod_loop self method req res xs"
      using False by (simp add: processMethod_loop.simps [of _ _ _ _ "xs @ [x]"])
    show ?thesis
    proof (cases "matching_lengths self xs = {}")
      case True
      then show ?thesis
        using unfold snoc.IH matching_lengths_snoc_miss [OF False] by simp
    next
      case nonempty: False
      have "take (Max (matching_lengths self xs)) (xs @ [x])
              = take (Max (matching_lengths self xs)) xs"
        using matching_lengths_Max_le [OF nonempty] by simp
      then show ?thesis
        using unfold snoc.IH matching_lengths_snoc_miss [OF False] nonempty by simp
    qed
  qed
qed

lemma api_match_prefix:
  assumes "CHR ''?'' \<notin> set sub" and "rest = [] \<or> hd rest = CHR ''?''"
  shows "api_match (''/api/'' @ sub @ rest) = Some sub"
proof -
  have "takeWhile (\<lambda>x. x \<noteq> CHR ''?'') (sub @ rest) = sub"
    using assms by (cases rest) (auto simp add: takeWhile_tail)
  then show ?thesis by simp
qed

text \<open>
  What the router does for every request under the mount prefix: it dispatches to the
  longest non-empty prefix of the segments at which the lookup \<open>this.endpoints[..]\<close>
  is truthy, and answers 404 when there is none. The lookup is truthy at an own key
  of the registry whose value is not the empty string, and at the name of every
  inherited member.
\<close>

lemma processMethod_longest_truthy_prefix:
  assumes "originalUrl req = ''/api/'' @ sub @ rest"
      and "CHR ''?'' \<notin> set sub"
      and "rest = [] \<or> hd rest = CHR ''?''"
  shows "processMethod self method req res =
           (let segments = split_when (\<lambda>c. c = CHR ''/'') sub;
                hits = {n. 1 \<le> n \<and> n \<le> length segments
                           \<and> truthy_endpoint
                               (lookup (server_endpoints self) (join CHR ''/'' (take n segments)))}
            in if hits = {}
               then (None, failed_with 404 ''api endpoint not found'' res, self)
               else processEndpoint self (join CHR ''/'' (take (Max hits) segments))
                      method req res)"
proof -
  have m: "api_match (originalUrl req) = Some sub"
    using api_match_prefix [OF assms(2) assms(3)] assms(1) by simp
  let ?segments = "split_when (\<lambda>c. c = CHR ''/'') sub"
  have hits: "{n. 1 \<le> n \<and> n \<le> length ?segments
                  \<and> truthy_endpoint
                      (lookup (server_endpoints self) (join CHR ''/'' (take n ?segments)))}
              = matching_lengths self ?segments"
    unfolding matching_lengths_def path_sep_def ..
  have s: "sendable (JNum 404)"
    by (rule sendable_status) simp_all
  have loop: "processMethod self method req res
                = processMethod_loop self method req res ?segments"
    using m by (simp add: processMethod_def path_sep_def)
  show ?thesis
    using loop unfolding Let_def hits processMethod_loop_longest [OF s]
    by (simp add: path_sep_def)
qed

text \<open>
  With \<open>a\<close> and \<open>a/b\<close> registered as handler types and \<open>a/b/c\<close> looked up in vain,
  the path \<open>a/b/c\<close> is dispatched to \<open>a/b\<close>.
\<close>

lemma processMethod_longer_key_first:
  assumes "originalUrl req = ''/api/a/b/c''"
      and "server_endpoints self ''a'' = Some (Local cls)"
      and "server_endpoints self ''a/b'' = Some (Local cls')"
      and "server_endpoints self ''a/b/c'' = None"
  shows "processMethod self method req res = processEndpoint self ''a/b'' method req res"
proof -
  have n: "\<not> inherited ''a/b/c''"
    by (simp add: inherited_def object_prototype_members_def)
  have "processMethod self method req res
          = processMethod_loop self method req res [''a'', ''b'', ''c'']"
    using assms(1) by (simp add: processMethod_def path_sep_def)
  also have "\<dots> = processMethod_loop self method req res [''a'', ''b'']"
    using assms(4) n
    by (simp add: processMethod_loop.simps [of _ _ _ _ "[''a'', ''b'', ''c'']"] path_sep_def
        lookup_def)
  also have "\<dots> = processEndpoint self ''a/b'' method req res"
    using assms(3)
    by (simp add: processMethod_loop.simps [of _ _ _ _ "[''a'', ''b'']"] path_sep_def
        lookup_def)
  finally show ?thesis .
qed

text \<open>
  Claim C2, evaluated at two requests. With the keys \<open>a\<close> and \<open>a/b\<close> registered, the
  request \<open>GET /api/toString\<close> has no registered key as a prefix, yet it is answered
  with status 405, message \<open>method not available\<close>, not with 404: the lookups on the
  registry and on the cache find the member \<open>toString\<close> that every object inherits.
  And a key registered with the empty URL string is passed over: \<open>GET /api/a\<close> is
  answered 404 although \<open>a\<close> is a key of the registry.
\<close>

theorem inherited_name_answered_405:
  "processMethod (process_of [(''a'', Local echo), (''a/b'', Local echo)]) ''get''
       (get_request ''/api/toString'') fresh_response
     = (None,
        \<lparr>statusCode = JNum 405,
         sent = [JsonReply (JNum 405) (error_body (JNum 405) (JStr ''method not available''))]\<rparr>,
        process_of [(''a'', Local echo), (''a/b'', Local echo)])
   \<and> processMethod (process_of [(''a'', Remote [])]) ''get''
       (get_request ''/api/a'') fresh_response
     = (None,
        \<lparr>statusCode = JNum 404,
         sent = [JsonReply (JNum 404) (error_body (JNum 404) (JStr ''api endpoint not found''))]\<rparr>,
        process_of [(''a'', Remote [])])"
proof -
  let ?p = "process_of [(''a'', Local echo), (''a/b'', Local echo)]"
  have t: "inherited ''toString''"
    by (simp add: inherited_def object_prototype_members_def)
  have reg: "lookup (server_endpoints ?p) ''toString'' = Some (Inherited ''toString'')"
    using t by (simp add: lookup_def process_of_def initial_process_def registry_of_def)
  have cache: "lookup (server_instances ?p) ''toString'' = Some (Inherited ''toString'')"
    using t by (simp add: lookup_def process_of_def initial_process_def)
  have ge: "getEndpoint ?p ''toString'' = Returned (Inherited ''toString'', ?p)"
    by (simp add: getEndpoint_def cache)
  have pe: "processEndpoint ?p ''toString'' ''get'' (get_request ''/api/toString'') fresh_response
              = (None, failed_with 405 ''method not available'' fresh_response, ?p)"
    by (simp add: processEndpoint_def ge respond_failure)
  have "processMethod ?p ''get'' (get_request ''/api/toString'') fresh_response
          = processMethod_loop ?p ''get'' (get_request ''/api/toString'') fresh_response
              [''toString'']"
    by (simp add: processMethod_def get_request_def path_sep_def)
  also have "\<dots> = processEndpoint ?p ''toString'' ''get'' (get_request ''/api/toString'')
                     fresh_response"
    by (simp add: processMethod_loop.simps [of _ _ _ _ "[''toString'']"] reg)
  finally have first: "processMethod ?p ''get'' (get_request ''/api/toString'') fresh_response
      = (None, failed_with 405 ''method not available'' fresh_response, ?p)"
    using pe by simp
  let ?q = "process_of [(''a'', Remote [])]"
  have a: "\<not> inherited ''a''"
    by (simp add: inherited_def object_prototype_members_def)
  have rq: "lookup (server_endpoints ?q) ''a'' = Some (Own (Remote []))"
    by (simp add: lookup_def process_of_def initial_process_def registry_of_def)
  have "processMethod ?q ''get'' (get_request ''/api/a'') fresh_response
          = processMethod_loop ?q ''get'' (get_request ''/api/a'') fresh_response [''a'']"
    by (simp add: processMethod_def get_request_def path_sep_def)
  also have "\<dots> = processMethod_loop ?q ''get'' (get_request ''/api/a'') fresh_response []"
    by (simp add: processMethod_loop.simps [of _ _ _ _ "[''a'']"] rq)
  also have "\<dots> = (None, failed_with 404 ''api endpoint not found'' fresh_response, ?q)"
    by (simp add: processMethod_loop.simps [of _ _ _ _ "[]"] respond_failure)
  finally have second: "processMethod ?q ''get'' (get_request ''/api/a'') fresh_response
      = (None, failed_with 404 ''api endpoint not found'' fresh_response, ?q)" .
  show ?thesis
    using first second by (simp add: failed_with_def fresh_response_def)
qed

section \<open>Parameter extraction\<close>

lemma map_of_set_prop: "map_of (set_prop k v params) = (map_of params)(k \<mapsto> v)"
  by (simp add: set_prop_def update_conv')

lemma map_of_fold_query:
  "distinct (map fst q) \<Longrightarrow>
   map_of (fold (\<lambda>kv p. set_prop (fst kv) (snd kv) p) q b) = map_of b ++ map_of q"
proof (induction q arbitrary: b)
  case Nil
  then show ?case by simp
next
  case (Cons kv q)
  obtain k v where kv: "kv = (k, v)" by (cases kv)
  have notin: "k \<notin> dom (map_of q)"
    using Cons.prems kv by (simp add: dom_map_of_conv_image_fst)
  have dq: "distinct (map fst q)"
    using Cons.prems by simp
  have "map_of (fold (\<lambda>kv p. set_prop (fst kv) (snd kv) p) (kv # q) b)
          = map_of (fold (\<lambda>kv p. set_prop (fst kv) (snd kv) p) q (set_prop k v b))"
    using kv by simp
  also have "\<dots> = map_of (set_prop k v b) ++ map_of q"
    using Cons.IH [OF dq] .
  also have "\<dots> = (map_of b)(k \<mapsto> v) ++ map_of q"
    by (simp add: map_of_set_prop)
  also have "\<dots> = (map_of b ++ map_of q)(k \<mapsto> v)"
    using notin by (rule map_add_upd_left)
  also have "\<dots> = map_of b ++ map_of (kv # q)"
    using kv by simp
  finally show ?case .
qed

lemma map_of_fold_headers:
  "k \<notin> set hs \<Longrightarrow> map_of (fold (\<lambda>h p. set_prop h (f h) p) hs params) k = map_of params k"
  by (induction hs arbitrary: params) (auto simp add: map_of_set_prop)

lemma map_of_fold_headers_written:
  "h \<in> set hs \<Longrightarrow> map_of (fold (\<lambda>h p. set_prop h (f h) p) hs params) h = Some (f h)"
proof (induction hs arbitrary: params)
  case Nil
  then show ?case by simp
next
  case (Cons a hs)
  show ?case
  proof (cases "h \<in> set hs")
    case True
    then show ?thesis using Cons.IH by simp
  next
    case False
    then have "h = a" using Cons.prems by simp
    then show ?thesis using False by (simp add: map_of_fold_headers map_of_set_prop)
  qed
qed

lemma keys_set_prop: "fst ` set (set_prop k v params) = insert k (fst ` set params)"
proof -
  have "fst ` set (set_prop k v params) = dom (map_of (set_prop k v params))"
    by (simp add: dom_map_of_conv_image_fst)
  also have "\<dots> = insert k (dom (map_of params))"
    by (simp add: map_of_set_prop)
  also have "\<dots> = insert k (fst ` set params)"
    by (simp add: dom_map_of_conv_image_fst)
  finally show ?thesis .
qed

lemma keys_fold_query:
  "fst ` set (fold (\<lambda>kv p. set_prop (fst kv) (snd kv) p) q params)
     = fst ` set params \<union> fst ` set q"
  by (induction q arbitrary: params) (simp_all add: keys_set_prop)

lemma keys_fold_headers:
  "fst ` set (fold (\<lambda>h p. set_prop h (f h) p) hs params) = fst ` set params \<union> set hs"
  by (induction hs arbitrary: params) (simp_all add: keys_set_prop)

lemma extractParams_keys:
  "fst ` set (body req) \<union> fst ` set (query req)
     \<subseteq> fst ` set (extractParams self method req)"
  by (simp add: extractParams_def Let_def keys_fold_headers keys_fold_query keys_set_prop
      le_supI1 le_supI2 subset_insertI2 split: option.splits)

lemma extractParams_lookup:
  assumes "distinct (map fst (query req))"
      and "k \<notin> {''_body'', ''_auth_token'', ''_request_id''} \<union> set (headerParams self)"
  shows "map_of (extractParams self method req) k = (map_of (body req) ++ map_of (query req)) k"
  using assms
  by (auto simp add: extractParams_def Let_def map_of_fold_headers map_of_set_prop
      map_of_fold_query split: option.splits)

text \<open>
  Claim C6. The extracted params are one object that has every key of the body and of
  the query. At every key that no later source writes (\<open>_body\<close>, \<open>_auth_token\<close>,
  \<open>_request_id\<close>, the configured header names), its value is the query's where the
  query has the key and the body's otherwise: the query is merged on top of the body.
  So the body \<open>{x: 1}\<close> with the query \<open>x = v\<close> gives params with \<open>x = v\<close>. The last
  source wins in its turn: a configured header name holds what \<open>req.header\<close> gives.
\<close>

theorem extractParams_query_over_body:
  assumes "distinct (map fst (query req))"
  shows "fst ` set (body req) \<union> fst ` set (query req)
           \<subseteq> fst ` set (extractParams self method req)
       \<and> (\<forall>k. k \<notin> {''_body'', ''_auth_token'', ''_request_id''} \<union> set (headerParams self)
              \<longrightarrow> map_of (extractParams self method req) k
                    = (map_of (body req) ++ map_of (query req)) k)
       \<and> (body req = [(''x'', JNum 1)] \<and> query req = [(''x'', v)]
            \<and> ''x'' \<notin> set (headerParams self)
          \<longrightarrow> get_prop (JObj (extractParams self method req)) ''x'' = v)
       \<and> (\<forall>h. h \<in> set (headerParams self)
              \<longrightarrow> map_of (extractParams self method req) h = Some (header_value req h))"
proof (intro conjI allI impI)
  show "fst ` set (body req) \<union> fst ` set (query req)
           \<subseteq> fst ` set (extractParams self method req)"
    by (rule extractParams_keys)
next
  fix k
  assume "k \<notin> {''_body'', ''_auth_token'', ''_request_id''} \<union> set (headerParams self)"
  then show "map_of (extractParams self method req) k
               = (map_of (body req) ++ map_of (query req)) k"
    using extractParams_lookup [OF assms] by blast
next
  assume ex: "body req = [(''x'', JNum 1)] \<and> query req = [(''x'', v)]
            \<and> ''x'' \<notin> set (headerParams self)"
  then have "''x'' \<notin> {''_body'', ''_auth_token'', ''_request_id''} \<union> set (headerParams self)"
    by simp
  then have "map_of (extractParams self method req) ''x''
               = (map_of (body req) ++ map_of (query req)) ''x''"
    using extractParams_lookup [OF assms] by blast
  then show "get_prop (JObj (extractParams self method req)) ''x'' = v"
    using ex by simp
next
  fix h
  assume "h \<in> set (headerParams self)"
  then show "map_of (extractParams self method req) h = Some (header_value req h)"
    by (simp add: extractParams_def Let_def map_of_fold_headers_written)
qed

theorem extractParams_query_over_body_witness:
  "distinct (map fst (query merge_request))
   \<and> get_prop (JObj (extractParams (process_of []) ''post'' merge_request)) ''x'' = JStr ''2''"
proof -
  have d: "distinct (map fst (query merge_request))"
    by (simp add: merge_request_def get_request_def)
  have ex: "body merge_request = [(''x'', JNum 1)] \<and> query merge_request = [(''x'', JStr ''2'')]
            \<and> ''x'' \<notin> set (headerParams (process_of []))"
    by (simp add: merge_request_def get_request_def process_of_def initial_process_def)
  show ?thesis
    using d extractParams_query_over_body [OF d, of "process_of []" "''post''" "JStr ''2''",
        THEN conjunct2, THEN conjunct2, THEN conjunct1, THEN mp, OF ex]
    by simp
qed

section \<open>The bearer token\<close>

lemma split_when_token:
  assumes "\<forall>c\<in>set w. \<not> p c" and "p s"
  shows "split_when p (w @ s # rest) = w # split_when p rest"
  using assms by (induction w) auto

lemma split_when_no_sep:
  assumes "\<forall>c\<in>set w. \<not> p c"
  shows "split_when p w = [w]"
  using assms by (induction w) auto

text \<open>
  Claim C7, at a concrete header: with \<open>Authorization: BEARER abc\<close> the params have no
  \<open>_auth_token\<close>. The source accepts the scheme in two spellings only.
\<close>

theorem uppercase_bearer_not_attached:
  "map_of (extractParams (process_of []) ''get'' (authorized_request ''BEARER abc''))
       ''_auth_token''
     = None"
  by (simp add: extractParams_def authorized_request_def get_request_def process_of_def initial_process_def
      bearer_def header_value_def Let_def)

text \<open>
  Claim C7, amended to the two spellings the code accepts. For every request whose
  Authorization header is \<open>Bearer\<close> or \<open>bearer\<close>, one space, and a token without
  whitespace, the params hold the token under \<open>_auth_token\<close> (unless \<open>_auth_token\<close> is
  itself a configured header name, which is assigned later).
\<close>

theorem extractParams_bearer_token:
  assumes "header req ''Authorization'' = Some (scheme @ '' '' @ token)"
      and "scheme = ''Bearer'' \<or> scheme = ''bearer''"
      and "\<forall>c\<in>set token. \<not> is_space c"
      and "''_auth_token'' \<notin> set (headerParams self)"
  shows "map_of (extractParams self method req) ''_auth_token'' = Some (JStr token)"
proof -
  let ?a = "scheme @ '' '' @ token"
  have sp: "is_space CHR '' ''" by (simp add: is_space_def)
  have sch: "\<forall>c\<in>set scheme. \<not> is_space c"
    using assms(2) by (auto simp add: is_space_def)
  have "split_when is_space ?a = scheme # split_when is_space token"
    using split_when_token [OF sch sp, of token] by simp
  then have parts: "element (split_when is_space ?a) 1 = JStr token"
    using split_when_no_sep [OF assms(3)] by (simp add: element_def)
  have b: "bearer ?a"
    using assms(2) by (auto simp add: bearer_def)
  show ?thesis
    using assms(1) assms(4) parts b
    by (simp add: extractParams_def Let_def map_of_fold_headers map_of_set_prop)
qed

theorem extractParams_bearer_token_witness:
  "header (authorized_request ''bearer abc123'') ''Authorization''
       = Some (''bearer'' @ '' '' @ ''abc123'')
   \<and> map_of (extractParams (process_of []) ''get'' (authorized_request ''bearer abc123''))
        ''_auth_token'' = Some (JStr ''abc123'')"
proof -
  have h: "header (authorized_request ''bearer abc123'') ''Authorization''
             = Some (''bearer'' @ '' '' @ ''abc123'')"
    by (simp add: authorized_request_def)
  have s: "''bearer'' = ''Bearer'' \<or> ''bearer'' = ''bearer''" by simp
  have t: "\<forall>c\<in>set ''abc123''. \<not> is_space c" by (simp add: is_space_def)
  have n: "''_auth_token'' \<notin> set (headerParams (process_of []))"
    by (simp add: process_of_def initial_process_def)
  show ?thesis
    using h extractParams_bearer_token [OF h s t n, of "''get''"] by simp
qed

end
